theory Spec2Isabelle
  imports Complex_Main "HOL-Library.Log_Nat"
begin

section \<open>Data model of \<open>main.go\<close>\<close>

text \<open>
  The exporter polls a list of endpoints, reads a certificate expiry date from each reply
  and publishes the number of days left as a gauge labelled by the endpoint's address and
  origin. This theory embeds \<open>src/main.go\<close>: the structs become records, the gauge
  vector becomes a map from label pairs to values, and everything the program gets from
  outside (files, the network, the clock, the JSON decoder) is read from a \<open>world\<close>
  record of oracles.
\<close>

text \<open>An \<open>interface{}\<close> field filled by the JSON decoder holds an arbitrary JSON value.\<close>

datatype json =
    JNull
  | JBool bool
  | JNumber rat
  | JString string
  | JArray "json list"
  | JObject "(string \<times> json) list"

text \<open>The anonymous struct of \<open>APIResponse.Data\<close>.\<close>

record APIData =
  AuthorizerDate :: string
  DateLimit :: string

record APIResponse =
  Status :: int
  Message :: json
  Data :: APIData
  Error :: json

record URLConfig =
  URL :: string
  Label :: string
  OriginPrometheus :: string

record Config =
  URLs :: "URLConfig list"

text \<open>
  Go errors. \<open>EnvError\<close> is an error handed over by the environment (file system, network,
  JSON decoder) with its message; \<open>ParseError\<close> is the error of \<open>time.Parse\<close>, holding
  the text that could not be parsed and the reason.
\<close>

datatype error =
    EnvError string
  | ParseError string string

subsection \<open>Floating point\<close>

text \<open>
  A finite \<open>float64\<close> is modelled by the rational number it denotes. Every arithmetic
  operation of the source on \<open>float64\<close> is the exact operation followed by \<open>fl64\<close>,
  the IEEE 754 rounding to the nearest binary64 value, ties to the even significand:
  a value \<open>x \<noteq> 0\<close> with \<open>2 ^ E \<le> \<bar>x\<bar> < 2 ^ (E + 1)\<close> is rounded to a multiple of
  \<open>2 ^ (E - 52)\<close>, and to a multiple of \<open>2 ^ -1074\<close> in the subnormal range.
  Infinities and NaN are not represented: all \<open>float64\<close> values of the program are
  computed from an \<open>int64\<close> number of nanoseconds and stay below \<open>2 ^ 24\<close> in
  magnitude (lemma \<open>float_values_bounded\<close>). Negative zero is identified with zero.
\<close>

definition round_half_even :: "rat \<Rightarrow> int" where
  "round_half_even x =
     (let f = \<lfloor>x\<rfloor>; r = x - of_int f
      in if r < 1 / 2 then f
         else if 1 / 2 < r then f + 1
         else if even f then f else f + 1)"

text \<open>\<open>ilog2 x\<close> is \<open>\<lfloor>log 2 x\<rfloor>\<close> for \<open>x > 0\<close>, computed from the bit lengths of numerator and denominator.\<close>

definition ilog2 :: "rat \<Rightarrow> int" where
  "ilog2 x =
     (let p = fst (quotient_of x); q = snd (quotient_of x);
          k = bitlen p - bitlen q
      in if 2 powi k \<le> x then k else k - 1)"

definition fl64 :: "rat \<Rightarrow> rat" where
  "fl64 x =
     (if x = 0 then 0
      else let e = max (ilog2 \<bar>x\<bar> - 52) (- 1074)
           in of_int (round_half_even (x / 2 powi e)) * 2 powi e)"

definition fadd :: "rat \<Rightarrow> rat \<Rightarrow> rat" where
  "fadd x y = fl64 (x + y)"

definition fmul :: "rat \<Rightarrow> rat \<Rightarrow> rat" where
  "fmul x y = fl64 (x * y)"

text \<open>Division by zero gives an infinity or NaN in Go; the program only divides by the constants 3.6e12, 24 and 100.\<close>

definition fdiv :: "rat \<Rightarrow> rat \<Rightarrow> rat" where
  "fdiv x y = fl64 (x / y)"

text \<open>\<open>float64(n)\<close> for an integer \<open>n\<close>.\<close>

definition float64_of_int :: "int \<Rightarrow> rat" where
  "float64_of_int n = fl64 (of_int n)"

text \<open>
  \<open>math.Round\<close>: the nearest integer, rounding half away from zero. The result of
  rounding a \<open>float64\<close> to an integer is again a \<open>float64\<close>, so no \<open>fl64\<close> is applied.
\<close>

definition math_Round :: "rat \<Rightarrow> rat" where
  "math_Round x = (if 0 \<le> x then of_int \<lfloor>x + 1 / 2\<rfloor> else - of_int \<lfloor>- x + 1 / 2\<rfloor>)"

text \<open>
  \<open>math.Pow(10, y)\<close> for an integral \<open>y\<close>. The source calls it with \<open>y = 2\<close> only,
  where Go's result is exactly 100.
\<close>

definition math_Pow10 :: "int \<Rightarrow> rat" where
  "math_Pow10 y = fl64 (10 powi y)"

text \<open>The source's \<open>round(value, precision)\<close> (lines 124 to 127).\<close>

definition round_go :: "rat \<Rightarrow> int \<Rightarrow> rat" where
  "round_go v precision =
     (let scale = math_Pow10 precision
      in fdiv (math_Round (fmul v scale)) scale)"

subsection \<open>Time\<close>

text \<open>
  An instant (\<open>time.Time\<close>) is the number of nanoseconds since 1970-01-01 00:00:00 UTC.
  A \<open>time.Duration\<close> is an \<open>int64\<close> number of nanoseconds.
\<close>

type_synonym Time = int
type_synonym Duration = int

definition minDuration :: Duration where
  "minDuration = - (2 ^ 63)"

definition maxDuration :: Duration where
  "maxDuration = 2 ^ 63 - 1"

definition Second :: Duration where
  "Second = 1000000000"

definition Hour :: Duration where
  "Hour = 60 * 60 * Second"

text \<open>
  \<open>t.Sub(u)\<close>: the duration \<open>t - u\<close>; when it does not fit a \<open>Duration\<close>, the largest
  (or smallest) duration is returned.
\<close>

definition Sub :: "Time \<Rightarrow> Time \<Rightarrow> Duration" where
  "Sub t u =
     (let d = t - u
      in if minDuration \<le> d \<and> d \<le> maxDuration then d
         else if t < u then minDuration
         else maxDuration)"

text \<open>Go's integer \<open>/\<close> and \<open>%\<close> truncate towards zero.\<close>

definition go_quot :: "int \<Rightarrow> int \<Rightarrow> int" where
  "go_quot a b = (if (a < 0) = (b < 0) then \<bar>a\<bar> div \<bar>b\<bar> else - (\<bar>a\<bar> div \<bar>b\<bar>))"

definition go_rem :: "int \<Rightarrow> int \<Rightarrow> int" where
  "go_rem a b = (if a < 0 then - (\<bar>a\<bar> mod \<bar>b\<bar>) else \<bar>a\<bar> mod \<bar>b\<bar>)"

text \<open>
  \<open>d.Hours()\<close>:
  \<^verbatim>\<open>hour := d / Hour; nsec := d % Hour; return float64(hour) + float64(nsec)/(60*60*1e9)\<close>
\<close>

definition Hours :: "Duration \<Rightarrow> rat" where
  "Hours d =
     (let hour = go_quot d Hour; nsec = go_rem d Hour
      in fadd (float64_of_int hour) (fdiv (float64_of_int nsec) (60 * 60 * 1000000000)))"

subsection \<open>\<open>time.Parse\<close> for the layout of the source\<close>

text \<open>
  The source parses with the layout \<open>"2006-01-02 15:04:05"\<close>: a four-digit year, a
  two-digit month and day, an hour of one or two digits, two-digit minutes and seconds.
  The functions below follow the parser of Go's \<open>time\<close> package on this layout.
  A location is modelled by its offset from UTC in seconds.
\<close>

type_synonym Location = int

definition UTC :: Location where
  "UTC = 0"

definition isDigit :: "string \<Rightarrow> nat \<Rightarrow> bool" where
  "isDigit s i =
     (if length s \<le> i then False
      else let c = (of_char (s ! i) :: nat) in 48 \<le> c \<and> c \<le> 57)"

definition digitVal :: "char \<Rightarrow> int" where
  "digitVal c = int (of_char c) - 48"

definition errBad :: "string \<Rightarrow> error" where
  "errBad avalue = ParseError avalue ''bad value for field''"

definition errRange :: "string \<Rightarrow> string \<Rightarrow> error" where
  "errRange avalue field = ParseError avalue ('': '' @ field @ '' out of range'')"

text \<open>\<open>getnum(s, fixed)\<close>: one or two digits, exactly two when \<open>fixed\<close>.\<close>

definition getnum :: "string \<Rightarrow> string \<Rightarrow> bool \<Rightarrow> error + int \<times> string" where
  "getnum avalue s fixed =
     (if \<not> isDigit s 0 then Inl (errBad avalue)
      else if \<not> isDigit s 1 then
        (if fixed then Inl (errBad avalue) else Inr (digitVal (s ! 0), drop 1 s))
      else Inr (digitVal (s ! 0) * 10 + digitVal (s ! 1), drop 2 s))"

text \<open>
  \<open>leadingInt\<close> consumes the leading decimal digits; \<open>None\<close> on overflow of the
  accumulator.
\<close>

fun leadingInt :: "int \<Rightarrow> string \<Rightarrow> (int \<times> string) option" where
  "leadingInt x [] = Some (x, [])"
| "leadingInt x (c # cs) =
     (if (of_char c :: nat) < 48 \<or> 57 < (of_char c :: nat) then Some (x, c # cs)
      else if x > 2 ^ 63 div 10 then None
      else let x' = x * 10 + digitVal c
           in if x' > 2 ^ 63 then None else leadingInt x' cs)"

definition atoi :: "string \<Rightarrow> int option" where
  "atoi s0 =
     (let neg = (s0 \<noteq> [] \<and> hd s0 = CHR ''-'');
          s = (if s0 \<noteq> [] \<and> (hd s0 = CHR ''-'' \<or> hd s0 = CHR ''+'') then tl s0 else s0)
      in case leadingInt 0 s of
           None \<Rightarrow> None
         | Some (q, rem) \<Rightarrow> if rem \<noteq> [] then None else Some (if neg then - q else q))"

definition cutspace :: "string \<Rightarrow> string" where
  "cutspace s = dropWhile (\<lambda>c. c = CHR '' '') s"

text \<open>
  \<open>skip(value, prefix)\<close> removes the literal text of the layout from the value; a space
  of the layout matches any run of spaces of the value.
\<close>

function skip :: "string \<Rightarrow> string \<Rightarrow> string \<Rightarrow> error + string" where
  "skip avalue v [] = Inr v"
| "skip avalue v (p # ps) =
     (if p = CHR '' '' then
        (if v \<noteq> [] \<and> hd v \<noteq> CHR '' '' then Inl (errBad avalue)
         else skip avalue (cutspace v) (cutspace ps))
      else if v = [] \<or> hd v \<noteq> p then Inl (errBad avalue)
      else skip avalue (tl v) ps)"
  by pat_completeness auto
termination
  by (relation "measure (\<lambda>(a, v, p). length p)")
     (auto simp: cutspace_def intro: le_imp_less_Suc length_dropWhile_le)

definition commaOrPeriod :: "char \<Rightarrow> bool" where
  "commaOrPeriod c = (c = CHR ''.'' \<or> c = CHR '','')"

text \<open>
  \<open>parseNanoseconds(value, nbytes)\<close>: the first \<open>nbytes\<close> bytes of the value are a
  period or comma and digits; at most nine digits are used.
\<close>

definition parseNanoseconds :: "string \<Rightarrow> string \<Rightarrow> nat \<Rightarrow> error + int" where
  "parseNanoseconds avalue v nbytes0 =
     (if v = [] \<or> \<not> commaOrPeriod (hd v) then Inl (errBad avalue)
      else let nbytes = (if nbytes0 > 10 then 10 else nbytes0)
           in case atoi (drop 1 (take nbytes v)) of
                None \<Rightarrow> Inl (errBad avalue)
              | Some ns \<Rightarrow>
                  if ns < 0 then Inl (errRange avalue ''fractional second'')
                  else Inr (ns * 10 ^ (10 - nbytes)))"

definition isLeap :: "int \<Rightarrow> bool" where
  "isLeap year = (year mod 4 = 0 \<and> (year mod 100 \<noteq> 0 \<or> year mod 400 = 0))"

definition daysBefore :: "int list" where
  "daysBefore = [0, 31, 59, 90, 120, 151, 181, 212, 243, 273, 304, 334, 365]"

definition daysIn :: "int \<Rightarrow> int \<Rightarrow> int" where
  "daysIn m year =
     (if m = 2 \<and> isLeap year then 29
      else daysBefore ! nat m - daysBefore ! nat (m - 1))"

text \<open>Days from 1970-01-01 to the first of January of \<open>year\<close> in the proleptic Gregorian calendar.\<close>

definition daysSinceEpoch :: "int \<Rightarrow> int" where
  "daysSinceEpoch year =
     (let y = year - 1
      in 365 * y + y div 4 - y div 100 + y div 400 - 719162)"

text \<open>
  \<open>time.Date(year, month, day, hour, min, sec, nsec, loc)\<close> for a month in 1..12 and a
  day valid in that month: the instant at which the clock of \<open>loc\<close> shows that date.
\<close>

definition Date :: "int \<Rightarrow> int \<Rightarrow> int \<Rightarrow> int \<Rightarrow> int \<Rightarrow> int \<Rightarrow> int \<Rightarrow> Location \<Rightarrow> Time" where
  "Date year month day hour minute sec nsec loc =
     (let d = daysSinceEpoch year + daysBefore ! nat (month - 1)
              + (if isLeap year \<and> 3 \<le> month then 1 else 0) + (day - 1);
          unix = d * 86400 + hour * 3600 + minute * 60 + sec - loc
      in unix * 1000000000 + nsec)"

text \<open>The fractional second that may follow the seconds field although the layout has none.\<close>

definition parseFraction :: "string \<Rightarrow> string \<Rightarrow> error + int \<times> string" where
  "parseFraction avalue v =
     (if 2 \<le> length v \<and> commaOrPeriod (v ! 0) \<and> isDigit v 1 then
        (let n = 2 + length (takeWhile (\<lambda>c. 48 \<le> (of_char c :: nat) \<and> (of_char c :: nat) \<le> 57) (drop 2 v))
         in case parseNanoseconds avalue v n of
              Inl e \<Rightarrow> Inl e
            | Inr nsec \<Rightarrow> Inr (nsec, drop n v))
      else Inr (0, v))"

text \<open>
  The fields that the parser collects, with the values they have before parsing: the
  month and the day start at \<open>-1\<close>, the others at 0.
\<close>

record parsed =
  p_year :: int
  p_month :: int
  p_day :: int
  p_hour :: int
  p_min :: int
  p_sec :: int
  p_nsec :: int

definition no_fields :: parsed where
  "no_fields = \<lparr>p_year = 0, p_month = - 1, p_day = - 1, p_hour = 0, p_min = 0, p_sec = 0, p_nsec = 0\<rparr>"

text \<open>
  The parser walks through the layout chunk by chunk: literal text, then a field. For the
  layout of the source, \<open>nextStdChunk\<close> yields the chunks of \<open>layoutChunks\<close>, after
  which the layout is empty.
\<close>

datatype std = stdLongYear | stdZeroMonth | stdZeroDay | stdHour | stdZeroMinute | stdZeroSecond

definition layoutChunks :: "(string \<times> std) list" where
  "layoutChunks =
     [([], stdLongYear), (''-'', stdZeroMonth), (''-'', stdZeroDay),
      ('' '', stdHour), ('':'', stdZeroMinute), ('':'', stdZeroSecond)]"

text \<open>
  One arm of the parser's \<open>switch\<close> on the kind of field: the field is read from the
  front of the value and checked against its range; the day is checked at the end, when the
  month and the year are known.
\<close>

fun parseField :: "string \<Rightarrow> std \<Rightarrow> parsed \<Rightarrow> string \<Rightarrow> error + parsed \<times> string" where
  "parseField avalue stdLongYear f v =
     (if length v < 4 \<or> \<not> isDigit v 0 then Inl (errBad avalue)
      else case atoi (take 4 v) of
             None \<Rightarrow> Inl (errBad avalue)
           | Some year \<Rightarrow> Inr (f\<lparr>p_year := year\<rparr>, drop 4 v))"
| "parseField avalue stdZeroMonth f v =
     (case getnum avalue v True of
        Inl e \<Rightarrow> Inl e
      | Inr (month, v') \<Rightarrow>
          if month \<le> 0 \<or> 12 < month then Inl (errRange avalue ''month'')
          else Inr (f\<lparr>p_month := month\<rparr>, v'))"
| "parseField avalue stdZeroDay f v =
     (case getnum avalue v True of
        Inl e \<Rightarrow> Inl e
      | Inr (day, v') \<Rightarrow> Inr (f\<lparr>p_day := day\<rparr>, v'))"
| "parseField avalue stdHour f v =
     (case getnum avalue v False of
        Inl e \<Rightarrow> Inl e
      | Inr (hour, v') \<Rightarrow>
          if hour < 0 \<or> 24 \<le> hour then Inl (errRange avalue ''hour'')
          else Inr (f\<lparr>p_hour := hour\<rparr>, v'))"
| "parseField avalue stdZeroMinute f v =
     (case getnum avalue v True of
        Inl e \<Rightarrow> Inl e
      | Inr (minute, v') \<Rightarrow>
          if minute < 0 \<or> 60 \<le> minute then Inl (errRange avalue ''minute'')
          else Inr (f\<lparr>p_min := minute\<rparr>, v'))"
| "parseField avalue stdZeroSecond f v =
     (case getnum avalue v True of
        Inl e \<Rightarrow> Inl e
      | Inr (sec, v') \<Rightarrow>
          if sec < 0 \<or> 60 \<le> sec then Inl (errRange avalue ''second'')
          else case parseFraction avalue v' of
                 Inl e \<Rightarrow> Inl e
               | Inr (nsec, v'') \<Rightarrow> Inr (f\<lparr>p_sec := sec, p_nsec := nsec\<rparr>, v''))"

text \<open>The loop of the parser over the chunks of the layout.\<close>

fun parseChunks :: "string \<Rightarrow> (string \<times> std) list \<Rightarrow> parsed \<Rightarrow> string \<Rightarrow> error + parsed \<times> string" where
  "parseChunks avalue [] f v = Inr (f, v)"
| "parseChunks avalue ((prefix, std) # chunks) f v =
     (case skip avalue v prefix of
        Inl e \<Rightarrow> Inl e
      | Inr v1 \<Rightarrow>
          (case parseField avalue std f v1 of
             Inl e \<Rightarrow> Inl e
           | Inr (f', v2) \<Rightarrow> parseChunks avalue chunks f' v2))"

text \<open>
  The parser on the layout \<open>"2006-01-02 15:04:05"\<close>, with the location used when the
  value names no time zone (the layout has no zone field, so it never does). After the
  last chunk nothing may be left of the value; then the day is checked against the month,
  and the date is taken in the default location.
\<close>

definition parse :: "string \<Rightarrow> Location \<Rightarrow> error + Time" where
  "parse avalue defaultLocation =
     (case parseChunks avalue layoutChunks no_fields avalue of
        Inl e \<Rightarrow> Inl e
      | Inr (f, v) \<Rightarrow>
          if v \<noteq> [] then Inl (ParseError avalue ('': extra text: '' @ v))
          else if p_day f < 1 \<or> p_day f > daysIn (p_month f) (p_year f) then
            Inl (ParseError avalue '': day out of range'')
          else Inr (Date (p_year f) (p_month f) (p_day f) (p_hour f) (p_min f) (p_sec f)
                      (p_nsec f) defaultLocation))"

text \<open>
  \<open>time.Parse(layout, value)\<close> with the layout of the source: without a time zone in
  the value, the time is in UTC. \<open>time.ParseInLocation\<close>, which the source does not
  call, is the same parser with the given location.
\<close>

definition time_Parse :: "string \<Rightarrow> error + Time" where
  "time_Parse avalue = parse avalue UTC"

definition time_ParseInLocation :: "string \<Rightarrow> Location \<Rightarrow> error + Time" where
  "time_ParseInLocation avalue loc = parse avalue loc"

section \<open>The environment and the program state\<close>

text \<open>
  What the program reads from outside is given by a \<open>world\<close>. The oracles that can
  answer differently at different moments (the file system, the network, the clock) take
  the number of environment interactions made so far, which the state counts in
  \<open>tick\<close>. The parsers of \<open>net/url\<close> and \<open>encoding/json\<close> are deterministic
  functions of their input and are not modelled further.
\<close>

record Request =
  Method :: string
  ReqURL :: string

record world =
  flagConfig :: string
    \<comment> \<open>the value of the \<open>-config\<close> flag after \<open>flag.Parse\<close>, \<open>config.json\<close> when not given\<close>
  localOffset :: Location
    \<comment> \<open>\<open>time.Local\<close>, the time zone of the process\<close>
  readFile :: "nat \<Rightarrow> string \<Rightarrow> error + string"
    \<comment> \<open>\<open>ioutil.ReadFile\<close>\<close>
  unmarshalConfig :: "string \<Rightarrow> Config \<times> error option"
    \<comment> \<open>\<open>json.Unmarshal\<close> into a zero \<open>Config\<close>\<close>
  urlParse :: "string \<Rightarrow> error option"
    \<comment> \<open>the error of \<open>url.Parse\<close> inside \<open>http.NewRequest\<close>, if any\<close>
  httpDo :: "nat \<Rightarrow> Request \<Rightarrow> error + string"
    \<comment> \<open>\<open>http.DefaultClient.Do\<close>: a transport error or the body of the response\<close>
  decodeResponse :: "string \<Rightarrow> error + APIResponse"
    \<comment> \<open>\<open>json.NewDecoder(body).Decode\<close> into a zero \<open>APIResponse\<close>\<close>
  now :: "nat \<Rightarrow> Time"
    \<comment> \<open>\<open>time.Now\<close>\<close>
  listenAndServe :: "error option"
    \<comment> \<open>the error with which \<open>http.ListenAndServe\<close> returns, if it does\<close>

text \<open>An argument of a \<open>log.Printf\<close> call, and a logged line: the format and its arguments.\<close>

datatype log_arg = AStr string | AErr error

type_synonym label_values = "string \<times> string"

record state =
  metric :: "label_values \<rightharpoonup> rat"
    \<comment> \<open>the gauge vector \<open>dap_abi_cert_expired_day\<close> with labels \<open>url\<close>, \<open>origin_prometheus\<close>\<close>
  logs :: "(string \<times> log_arg list) list"
  tick :: nat
  serving :: bool
    \<comment> \<open>whether the server of \<open>/metrics\<close> has been started\<close>

definition initial_state :: state where
  "initial_state = \<lparr>metric = Map.empty, logs = [], tick = 0, serving = False\<rparr>"

text \<open>How a process is found after some steps: still running, or exited with a status.\<close>

datatype outcome = Running state | Exited int state

definition log_Printf :: "string \<Rightarrow> log_arg list \<Rightarrow> state \<Rightarrow> state" where
  "log_Printf format args st = st\<lparr>logs := logs st @ [(format, args)]\<rparr>"

text \<open>\<open>log.Fatalf\<close> is \<open>log.Printf\<close> followed by \<open>os.Exit(1)\<close>.\<close>

definition log_Fatalf :: "string \<Rightarrow> log_arg list \<Rightarrow> state \<Rightarrow> outcome" where
  "log_Fatalf format args st = Exited 1 (log_Printf format args st)"

text \<open>\<open>metric.WithLabelValues(url, origin).Set(v)\<close>: the child gauge is created when missing, then set.\<close>

definition metric_Set :: "string \<Rightarrow> string \<Rightarrow> rat \<Rightarrow> state \<Rightarrow> state" where
  "metric_Set url origin v st = st\<lparr>metric := (metric st)((url, origin) \<mapsto> v)\<rparr>"

definition ioutil_ReadFile :: "world \<Rightarrow> string \<Rightarrow> state \<Rightarrow> (error + string) \<times> state" where
  "ioutil_ReadFile w filePath st = (readFile w (tick st) filePath, st\<lparr>tick := Suc (tick st)\<rparr>)"

definition http_NewRequest :: "world \<Rightarrow> string \<Rightarrow> string \<Rightarrow> error + Request" where
  "http_NewRequest w method url =
     (case urlParse w url of
        Some err \<Rightarrow> Inl err
      | None \<Rightarrow> Inr \<lparr>Method = method, ReqURL = url\<rparr>)"

definition http_Do :: "world \<Rightarrow> Request \<Rightarrow> state \<Rightarrow> (error + string) \<times> state" where
  "http_Do w req st = (httpDo w (tick st) req, st\<lparr>tick := Suc (tick st)\<rparr>)"

definition time_Now :: "world \<Rightarrow> state \<Rightarrow> Time \<times> state" where
  "time_Now w st = (now w (tick st), st\<lparr>tick := Suc (tick st)\<rparr>)"

definition time_Sleep :: "Duration \<Rightarrow> state \<Rightarrow> state" where
  "time_Sleep d st = st\<lparr>tick := Suc (tick st)\<rparr>"

section \<open>The functions of \<open>main.go\<close>\<close>

text \<open>\<open>readConfig\<close> (lines 68 to 76) returns the configuration and the error, like the source.\<close>

definition readConfig :: "world \<Rightarrow> string \<Rightarrow> state \<Rightarrow> (Config \<times> error option) \<times> state" where
  "readConfig w filePath st =
     (case ioutil_ReadFile w filePath st of
        (Inl err, st1) \<Rightarrow> ((\<lparr>URLs = []\<rparr>, Some err), st1)
      | (Inr data, st1) \<Rightarrow> (unmarshalConfig w data, st1))"

text \<open>\<open>fetchData\<close> (lines 78 to 121).\<close>

definition fetchData :: "world \<Rightarrow> URLConfig \<Rightarrow> state \<Rightarrow> state" where
  "fetchData w urlConfig st =
     (case http_NewRequest w ''POST'' (URL urlConfig) of
        Inl err \<Rightarrow>
          metric_Set (URL urlConfig) (OriginPrometheus urlConfig) (- 1)
            (log_Printf ''Error creating POST request for %s: %v''
               [AStr (URL urlConfig), AErr err] st)
      | Inr req \<Rightarrow>
     (case http_Do w req st of
        (Inl err, st1) \<Rightarrow>
          metric_Set (URL urlConfig) (OriginPrometheus urlConfig) (- 1)
            (log_Printf ''Error performing POST request to %s: %v''
               [AStr (URL urlConfig), AErr err] st1)
      | (Inr body, st1) \<Rightarrow>
     (case decodeResponse w body of
        Inl err \<Rightarrow>
          metric_Set (URL urlConfig) (OriginPrometheus urlConfig) (- 1)
            (log_Printf ''Error decoding JSON response from %s: %v''
               [AStr (URL urlConfig), AErr err] st1)
      | Inr apiResponse \<Rightarrow>
          if DateLimit (Data apiResponse) = [] then
            metric_Set (URL urlConfig) (OriginPrometheus urlConfig) (- 1)
              (log_Printf ''DateLimit is empty for URL %s'' [AStr (URL urlConfig)] st1)
          else
     (case time_Parse (DateLimit (Data apiResponse)) of
        Inl err \<Rightarrow>
          metric_Set (URL urlConfig) (OriginPrometheus urlConfig) (- 1)
            (log_Printf ''Error parsing DateLimit from %s: %v''
               [AStr (URL urlConfig), AErr err] st1)
      | Inr dateLimit \<Rightarrow>
          (case time_Now w st1 of
             (currentTime, st2) \<Rightarrow>
               let dateDiff = fdiv (Hours (Sub dateLimit currentTime)) 24
               in metric_Set (URL urlConfig) (OriginPrometheus urlConfig)
                    (round_go dateDiff 2) st2)))))"

text \<open>
  \<open>init\<close> (lines 48 to 66), which the Go runtime runs before \<open>main\<close>. The flags are
  taken as parsed; registering the metric does not change the gauge vector.
\<close>

definition init :: "world \<Rightarrow> state \<Rightarrow> outcome" where
  "init w st =
     (let configFile = flagConfig w
      in case readConfig w configFile st of
           ((config, Some err), st1) \<Rightarrow>
             log_Fatalf ''Error reading config file: %v'' [AErr err] st1
         | ((config, None), st1) \<Rightarrow>
             Running (fold (\<lambda>urlConfig. metric_Set (URL urlConfig) (OriginPrometheus urlConfig) (- 1))
                        (URLs config) st1))"

text \<open>One iteration of the \<open>for\<close> loop of the goroutine in \<open>main\<close> (lines 136 to 146).\<close>

definition cycle :: "world \<Rightarrow> state \<Rightarrow> outcome" where
  "cycle w st =
     (let configFile = ''config.json''
      in case readConfig w configFile st of
           ((config, Some err), st1) \<Rightarrow>
             log_Fatalf ''Error reading config file: %v'' [AErr err] st1
         | ((config, None), st1) \<Rightarrow>
             Running (time_Sleep (10 * Hour) (fold (fetchData w) (URLs config) st1)))"

text \<open>
  The loop has no exit of its own; \<open>scheduler n\<close> is the process after at most \<open>n\<close>
  iterations of it.
\<close>

fun scheduler :: "nat \<Rightarrow> world \<Rightarrow> state \<Rightarrow> outcome" where
  "scheduler 0 w st = Running st"
| "scheduler (Suc n) w st =
     (case cycle w st of
        Exited code st1 \<Rightarrow> Exited code st1
      | Running st1 \<Rightarrow> scheduler n w st1)"

text \<open>
  \<open>main\<close> (lines 129 to 152) starts the goroutine of the polling loop, logs, and
  serves \<open>/metrics\<close>; when the server cannot start, \<open>log.Fatal\<close> ends the process.
  The goroutine and the server run side by side; the model starts the server first and
  then follows the goroutine for \<open>n\<close> iterations.
\<close>

definition main :: "nat \<Rightarrow> world \<Rightarrow> state \<Rightarrow> outcome" where
  "main n w st =
     (let st1 = log_Printf ''Starting server on :18000'' [] st
      in case listenAndServe w of
           Some err \<Rightarrow> log_Fatalf ''%v'' [AErr err] st1
         | None \<Rightarrow> scheduler n w (st1\<lparr>serving := True\<rparr>))"

text \<open>The process from its start: \<open>init\<close>, then \<open>main\<close>.\<close>

definition program :: "nat \<Rightarrow> world \<Rightarrow> outcome" where
  "program n w =
     (case init w initial_state of
        Exited code st \<Rightarrow> Exited code st
      | Running st \<Rightarrow> main n w st)"

text \<open>The label values under which the metric of an endpoint is stored.\<close>

abbreviation labels :: "URLConfig \<Rightarrow> label_values" where
  "labels urlConfig \<equiv> (URL urlConfig, OriginPrometheus urlConfig)"

text \<open>
  The value that the last two statements of \<open>fetchData\<close> (lines 119 and 120) compute
  from the parsed date limit and the reading of the clock.
\<close>

abbreviation published_days :: "Time \<Rightarrow> Time \<Rightarrow> rat" where
  "published_days dateLimit currentTime \<equiv>
     round_go (fdiv (Hours (Sub dateLimit currentTime)) 24) 2"

section \<open>The reading of the date limit in the specification\<close>

text \<open>
  The specification describes the date limit as a time without zone that is taken in the
  local time of the process. \<open>local_time_reading\<close> is that reading, for comparison
  with the \<open>time_Parse\<close> of the source.
\<close>

definition local_time_reading :: "world \<Rightarrow> string \<Rightarrow> error + Time" where
  "local_time_reading w dateLimit = time_ParseInLocation dateLimit (localOffset w)"

text \<open>
  The specification states the days remaining as the difference of the two instants in
  hours, divided by 24, a signed real number, rounded to two decimal places under one of two
  policies for a tie. \<open>exact_days\<close> and the two roundings are these notions in exact
  arithmetic, for comparison with what the source computes in \<open>Duration\<close> and
  \<open>float64\<close>.
\<close>

definition exact_days :: "Time \<Rightarrow> Time \<Rightarrow> rat" where
  "exact_days dateLimit currentTime = of_int (dateLimit - currentTime) / 3600000000000 / 24"

definition round2_half_away :: "rat \<Rightarrow> rat" where
  "round2_half_away x = math_Round (x * 100) / 100"

definition round2_half_even :: "rat \<Rightarrow> rat" where
  "round2_half_even x = of_int (round_half_even (x * 100)) / 100"

text \<open>
  The outcome of polling an endpoint as the specification describes the collector: the
  request is issued at tick \<open>t\<close>; the sentinel \<open>-1\<close> when the request cannot be built
  or fails, the body does not decode, the date limit is empty or does not parse; otherwise
  the rounded days between the date limit and the clock, read at the next tick.
\<close>

definition endpoint_outcome :: "world \<Rightarrow> URLConfig \<Rightarrow> nat \<Rightarrow> rat" where
  "endpoint_outcome w u t =
     (case urlParse w (URL u) of
        Some err \<Rightarrow> - 1
      | None \<Rightarrow>
     (case httpDo w t \<lparr>Method = ''POST'', ReqURL = URL u\<rparr> of
        Inl err \<Rightarrow> - 1
      | Inr body \<Rightarrow>
     (case decodeResponse w body of
        Inl err \<Rightarrow> - 1
      | Inr r \<Rightarrow>
          if DateLimit (Data r) = [] then - 1
          else
     (case time_Parse (DateLimit (Data r)) of
        Inl err \<Rightarrow> - 1
      | Inr dateLimit \<Rightarrow> published_days dateLimit (now w (Suc t))))))"


text \<open>
  The text of a date and time of day in the layout \<open>YYYY-MM-DD HH:MM:SS\<close>, with
  leading zeros.
\<close>

definition digitChar :: "int \<Rightarrow> char" where
  "digitChar n = char_of (48 + nat n)"

definition twoDigits :: "int \<Rightarrow> string" where
  "twoDigits n = [digitChar (n div 10), digitChar (n mod 10)]"

definition fourDigits :: "int \<Rightarrow> string" where
  "fourDigits n = [digitChar (n div 1000), digitChar (n div 100 mod 10),
                   digitChar (n div 10 mod 10), digitChar (n mod 10)]"

definition formatDateTime :: "int \<Rightarrow> int \<Rightarrow> int \<Rightarrow> int \<Rightarrow> int \<Rightarrow> int \<Rightarrow> string" where
  "formatDateTime year month day hour minute sec =
     fourDigits year @ ''-'' @ twoDigits month @ ''-'' @ twoDigits day @ '' ''
       @ twoDigits hour @ '':'' @ twoDigits minute @ '':'' @ twoDigits sec"

section \<open>Example environments\<close>

text \<open>
  Two endpoints, as in the end-to-end scenario of the specification: the first answers with
  the date limit \<open>2099-01-01 00:00:00\<close>, the request to the second fails. The clock
  shows 2026-10-31 12:34:56 UTC.
\<close>

definition endpointA :: URLConfig where
  "endpointA = \<lparr>URL = ''http://a.example/cert'', Label = ''A'', OriginPrometheus = ''prom-1''\<rparr>"

definition endpointB :: URLConfig where
  "endpointB = \<lparr>URL = ''http://b.example/cert'', Label = ''B'', OriginPrometheus = ''prom-1''\<rparr>"

definition response_with :: "string \<Rightarrow> APIResponse" where
  "response_with dateLimit =
     \<lparr>Status = 200, Message = JString ''ok'',
      Data = \<lparr>AuthorizerDate = ''2024-01-01 00:00:00'', DateLimit = dateLimit\<rparr>,
      Error = JNull\<rparr>"

definition example_world :: world where
  "example_world =
     \<lparr>flagConfig = ''config.json'',
      localOffset = 0,
      readFile = (\<lambda>t path. if path = ''config.json'' then Inr ''urls: A, B''
                             else Inl (EnvError ''no such file or directory'')),
      unmarshalConfig = (\<lambda>data. (\<lparr>URLs = [endpointA, endpointB]\<rparr>, None)),
      urlParse = (\<lambda>url. None),
      httpDo = (\<lambda>t req. if ReqURL req = URL endpointA then Inr ''status: 200, data: ...''
                          else Inl (EnvError ''context deadline exceeded'')),
      decodeResponse = (\<lambda>body. Inr (response_with ''2099-01-01 00:00:00'')),
      now = (\<lambda>t. 1793450096 * 1000000000),
      listenAndServe = None\<rparr>"

text \<open>
  A world started with \<open>-config other.json\<close>: that file lists the first endpoint,
  \<open>config.json\<close> lists the second.
\<close>

definition other_flag_world :: world where
  "other_flag_world =
     example_world
       \<lparr>flagConfig := ''other.json'',
        readFile := (\<lambda>t path. if path = ''other.json'' then Inr ''A''
                                else if path = ''config.json'' then Inr ''B''
                                else Inl (EnvError ''no such file or directory'')),
        unmarshalConfig := (\<lambda>data. if data = ''A'' then (\<lparr>URLs = [endpointA]\<rparr>, None)
                                     else (\<lparr>URLs = [endpointB]\<rparr>, None))\<rparr>"

text \<open>
  A world in which \<open>config.json\<close> can be read for the first cycle and is gone
  afterwards.
\<close>

definition vanishing_config_world :: world where
  "vanishing_config_world =
     example_world
       \<lparr>readFile := (\<lambda>t path. if path = ''config.json'' \<and> t < 5 then Inr ''urls: A, B''
                                else Inl (EnvError ''no such file or directory''))\<rparr>"

text \<open>A reply with the same date limit as \<open>response_with\<close> and all other fields different.\<close>

definition error_response_with :: "string \<Rightarrow> APIResponse" where
  "error_response_with dateLimit =
     \<lparr>Status = 500, Message = JNull,
      Data = \<lparr>AuthorizerDate = [], DateLimit = dateLimit\<rparr>,
      Error = JObject [(''code'', JNumber 17), (''text'', JString ''internal error'')]\<rparr>"

text \<open>
  The date limit of the first endpoint, \<open>2099-01-01 00:00:00\<close>, one second and one
  day before the reading of the clock.
\<close>

definition just_expired_world :: world where
  "just_expired_world = example_world\<lparr>now := \<lambda>t. 4070908801 * 1000000000\<rparr>"

definition day_expired_world :: world where
  "day_expired_world = example_world\<lparr>now := \<lambda>t. 4070995200 * 1000000000\<rparr>"

text \<open>The same date limit 432 seconds before the reading of the clock.\<close>

definition tie_world :: world where
  "tie_world = example_world\<lparr>now := \<lambda>t. 4070909232 * 1000000000\<rparr>"

text \<open>The same date limit 432 and 3024 seconds (0.005 and 0.035 days) after the reading of the clock.\<close>

definition ahead_432_world :: world where
  "ahead_432_world = example_world\<lparr>now := \<lambda>t. (4070908800 - 432) * 1000000000\<rparr>"

definition ahead_3024_world :: world where
  "ahead_3024_world = example_world\<lparr>now := \<lambda>t. (4070908800 - 3024) * 1000000000\<rparr>"

text \<open>Date limits more than 292 years after and before the reading of the clock.\<close>

definition far_future_world :: world where
  "far_future_world =
     example_world\<lparr>decodeResponse := \<lambda>body. Inr (response_with ''9999-12-31 23:59:59'')\<rparr>"

definition far_past_world :: world where
  "far_past_world =
     example_world\<lparr>decodeResponse := \<lambda>body. Inr (response_with ''0001-01-01 00:00:00'')\<rparr>"


text \<open>The example with the process running eight hours east of UTC.\<close>

definition east_world :: world where
  "east_world = example_world\<lparr>localOffset := 8 * 3600\<rparr>"

section \<open>Properties of the floating-point model\<close>

lemma rhe_of_int: "round_half_even (of_int n) = n"
  by (simp add: round_half_even_def)

lemma rhe_cases: "round_half_even x = \<lfloor>x\<rfloor> \<or> round_half_even x = \<lfloor>x\<rfloor> + 1"
  by (simp add: round_half_even_def Let_def)

lemma rhe_mono: assumes "x \<le> y" shows "round_half_even x \<le> round_half_even y"
proof (cases "\<lfloor>x\<rfloor> = \<lfloor>y\<rfloor>")
  case True
  then have "x - of_int \<lfloor>x\<rfloor> \<le> y - of_int \<lfloor>y\<rfloor>" using assms by simp
  then show ?thesis using True by (simp add: round_half_even_def Let_def)
next
  case False
  then have "\<lfloor>x\<rfloor> < \<lfloor>y\<rfloor>" using assms floor_mono [of x y] by linarith
  moreover have "round_half_even x \<le> \<lfloor>x\<rfloor> + 1" using rhe_cases [of x] by linarith
  moreover have "\<lfloor>y\<rfloor> \<le> round_half_even y" using rhe_cases [of y] by linarith
  ultimately show ?thesis by linarith
qed

lemma floor_uminus_nonint:
  fixes x :: rat
  assumes "x \<noteq> of_int \<lfloor>x\<rfloor>"
  shows "\<lfloor>- x\<rfloor> = - \<lfloor>x\<rfloor> - 1"
proof (rule floor_unique)
  have "of_int \<lfloor>x\<rfloor> \<le> x" by simp
  with assms have lt: "of_int \<lfloor>x\<rfloor> < x" by linarith
  have "x < of_int \<lfloor>x\<rfloor> + 1" by linarith
  then show "of_int (- \<lfloor>x\<rfloor> - 1) \<le> - x" by simp
  from lt show "- x < of_int (- \<lfloor>x\<rfloor> - 1) + 1" by simp
qed

lemma rhe_uminus: "round_half_even (- x) = - round_half_even x"
proof (cases "x = of_int \<lfloor>x\<rfloor>")
  case True
  then obtain n where n: "x = of_int n" ..
  then have "- x = of_int (- n)" by simp
  then have "round_half_even (- x) = - n" by (simp only: rhe_of_int)
  then show ?thesis using n by (simp only: rhe_of_int)
next
  case False
  define f where "f = \<lfloor>x\<rfloor>"
  define r where "r = x - of_int f"
  have f': "\<lfloor>- x\<rfloor> = - f - 1" using floor_uminus_nonint [OF False] by (simp add: f_def)
  have r': "- x - of_int (- f - 1) = 1 - r" by (simp add: r_def)
  have e: "even (- f - 1) \<longleftrightarrow> odd f" by simp
  have a: "round_half_even x = (if r < 1 / 2 then f else if 1 / 2 < r then f + 1 else if even f then f else f + 1)"
    by (simp add: round_half_even_def Let_def f_def r_def)
  have b: "round_half_even (- x) = (if 1 - r < 1 / 2 then - f - 1 else if 1 / 2 < 1 - r then - f else if odd f then - f - 1 else - f)"
    unfolding round_half_even_def Let_def f' r' e by simp
  show ?thesis unfolding a b by (cases "r < 1 / 2"; cases "1 / 2 < r"; simp)
qed

lemma pow2_exp_less:
  fixes x :: rat
  assumes "2 powi m \<le> x" "x < 2 powi n"
  shows "m < n"
proof (rule ccontr)
  assume "\<not> m < n"
  then have "n \<le> m" by simp
  then have "(2::rat) powi n \<le> 2 powi m" by (intro power_int_increasing) simp_all
  with assms show False by linarith
qed

lemma pow2_diff_nat: "(2::rat) powi (int m - int n) = 2 ^ m / 2 ^ n"
proof -
  have "(2::rat) powi (int m - int n) = 2 powi int m / 2 powi int n"
    by (rule power_int_diff) simp
  then show ?thesis by (simp only: power_int_of_nat)
qed

lemma ilog2_bounds:
  assumes "0 < x"
  shows "2 powi ilog2 x \<le> x \<and> x < 2 powi (ilog2 x + 1)"
proof -
  define p where "p = fst (quotient_of x)"
  define q where "q = snd (quotient_of x)"
  have qp: "quotient_of x = (p, q)" by (simp add: p_def q_def)
  have q0: "0 < q" using quotient_of_denom_pos [OF qp] .
  have x: "x = of_int p / of_int q" using quotient_of_div [OF qp] .
  have p0: "0 < p" using assms q0 unfolding x by (simp add: zero_less_divide_iff)
  define a where "a = nat (bitlen p - 1)"
  define b where "b = nat (bitlen q - 1)"
  have bp: "bitlen p = int a + 1" using p0 bitlen_nonneg [of p] bitlen_eq_zero_iff [of p]
    by (simp add: a_def)
  have bq: "bitlen q = int b + 1" using q0 bitlen_nonneg [of q] bitlen_eq_zero_iff [of q]
    by (simp add: b_def)
  have "2 ^ a \<le> p" "p < 2 ^ (a + 1)"
    using bitlen_bounds [OF p0] by (simp_all add: bp a_def [symmetric] nat_add_distrib)
  then have P: "(2::rat) ^ a \<le> of_int p" "of_int p < (2::rat) ^ (a + 1)"
    by (metis of_int_le_iff of_int_numeral of_int_power, metis of_int_less_iff of_int_numeral of_int_power)
  have "2 ^ b \<le> q" "q < 2 ^ (b + 1)"
    using bitlen_bounds [OF q0] by (simp_all add: bq b_def [symmetric] nat_add_distrib)
  then have Q: "(2::rat) ^ b \<le> of_int q" "of_int q < (2::rat) ^ (b + 1)"
    by (metis of_int_le_iff of_int_numeral of_int_power, metis of_int_less_iff of_int_numeral of_int_power)
  define k where "k = int a - int b"
  have k: "bitlen p - bitlen q = k" by (simp add: bp bq k_def)
  have q0r: "(0::rat) < of_int q" using q0 by simp
  have up: "x < 2 powi (k + 1)"
  proof -
    have "x < 2 ^ (a + 1) / of_int q" unfolding x using P(2) q0r by (simp add: divide_strict_right_mono)
    also have "\<dots> \<le> 2 ^ (a + 1) / 2 ^ b" using Q(1) by (simp add: frac_le)
    also have "\<dots> = 2 powi (int (a + 1) - int b)" by (rule pow2_diff_nat [symmetric])
    also have "int (a + 1) - int b = k + 1" by (simp add: k_def)
    finally show ?thesis .
  qed
  have lo: "2 powi (k - 1) < x"
  proof -
    have "(2::rat) powi (k - 1) = 2 powi (int a - int (b + 1))" by (simp add: k_def algebra_simps)
    also have "\<dots> = 2 ^ a / 2 ^ (b + 1)" by (rule pow2_diff_nat)
    also have "\<dots> < 2 ^ a / of_int q" using Q(2) q0r by (simp add: divide_strict_left_mono)
    also have "\<dots> \<le> x" unfolding x using P(1) q0r by (simp add: divide_right_mono)
    finally show ?thesis .
  qed
  have il: "ilog2 x = (if 2 powi k \<le> x then k else k - 1)"
    by (simp add: ilog2_def Let_def p_def [symmetric] q_def [symmetric] k)
  show ?thesis
  proof (cases "2 powi k \<le> x")
    case True
    then show ?thesis using up by (simp add: il)
  next
    case False
    then show ?thesis using lo by (simp add: il)
  qed
qed

lemma ilog2_mono:
  assumes "0 < x" "x \<le> y"
  shows "ilog2 x \<le> ilog2 y"
proof -
  have "0 < y" using assms by linarith
  from ilog2_bounds [OF assms(1)] ilog2_bounds [OF this] assms(2)
  have "2 powi ilog2 x \<le> y" "y < 2 powi (ilog2 y + 1)" by linarith+
  from pow2_exp_less [OF this] show ?thesis by simp
qed

lemma fl64_uminus: "fl64 (- x) = - fl64 x"
  by (simp add: fl64_def Let_def rhe_uminus)

lemma fl64_nonneg: assumes "0 \<le> x" shows "0 \<le> fl64 x"
proof (cases "x = 0")
  case True
  then show ?thesis by (simp add: fl64_def)
next
  case False
  define e where "e = max (ilog2 \<bar>x\<bar> - 52) (- 1074)"
  have "0 \<le> x / 2 powi e" using assms by simp
  then have "round_half_even (of_int 0) \<le> round_half_even (x / 2 powi e)"
    by (intro rhe_mono) simp
  then have "0 \<le> round_half_even (x / 2 powi e)" by (simp only: rhe_of_int)
  then have "0 \<le> rat_of_int (round_half_even (x / 2 powi e)) * 2 powi e" by simp
  then show ?thesis using False by (simp add: fl64_def Let_def e_def)
qed

lemma fl64_mono_pos:
  assumes "0 < x" "x \<le> y"
  shows "fl64 x \<le> fl64 y"
proof -
  have y0: "0 < y" using assms by linarith
  define ex where "ex = max (ilog2 x - 52) (- 1074)"
  define ey where "ey = max (ilog2 y - 52) (- 1074)"
  have fx: "fl64 x = of_int (round_half_even (x / 2 powi ex)) * 2 powi ex"
    using assms(1) by (simp add: fl64_def Let_def ex_def)
  have fy: "fl64 y = of_int (round_half_even (y / 2 powi ey)) * 2 powi ey"
    using y0 by (simp add: fl64_def Let_def ey_def)
  have le: "ex \<le> ey" using ilog2_mono [OF assms] by (simp add: ex_def ey_def)
  show ?thesis
  proof (cases "ex = ey")
    case True
    have "x / 2 powi ey \<le> y / 2 powi ey" using assms(2) by (simp add: divide_right_mono)
    then have "round_half_even (x / 2 powi ey) \<le> round_half_even (y / 2 powi ey)" by (rule rhe_mono)
    then have "rat_of_int (round_half_even (x / 2 powi ey)) \<le> of_int (round_half_even (y / 2 powi ey))"
      by simp
    then show ?thesis unfolding fx fy True by (simp add: mult_right_mono)
  next
    case False
    with le have lt: "ex < ey" by simp
    have p: "(0::rat) < 2 powi ex" by simp
    have "x < 2 powi (ilog2 x + 1)" using ilog2_bounds [OF assms(1)] by simp
    also have "\<dots> \<le> 2 powi (ex + 53)" by (intro power_int_increasing) (simp_all add: ex_def)
    also have "\<dots> = 2 powi ex * 2 ^ 53" by (simp add: power_int_add)
    finally have "x / 2 powi ex \<le> 2 ^ 53" using p by (simp add: pos_divide_le_eq mult.commute)
    also have "(2::rat) ^ 53 = of_int (2 ^ 53)" by simp
    finally have "round_half_even (x / 2 powi ex) \<le> round_half_even (of_int (2 ^ 53))" by (rule rhe_mono)
    then have "round_half_even (x / 2 powi ex) \<le> 2 ^ 53" by (simp only: rhe_of_int)
    then have "rat_of_int (round_half_even (x / 2 powi ex)) \<le> of_int (2 ^ 53)" by (simp only: of_int_le_iff)
    then have "fl64 x \<le> of_int (2 ^ 53) * 2 powi ex" unfolding fx using p by (simp only: mult_right_mono less_imp_le)
    also have "\<dots> = 2 powi (ex + 53)" by (simp add: power_int_add)
    finally have X: "fl64 x \<le> 2 powi (ex + 53)" .
    have ey': "ey = ilog2 y - 52" using lt by (auto simp: ex_def ey_def max_def split: if_splits)
    have q: "(0::rat) < 2 powi ey" by simp
    have "(2::rat) powi ey * 2 ^ 52 = 2 powi (ey + 52)" by (simp add: power_int_add)
    also have "\<dots> = 2 powi ilog2 y" by (simp add: ey')
    also have "\<dots> \<le> y" using ilog2_bounds [OF y0] by simp
    finally have "2 ^ 52 \<le> y / 2 powi ey" using q by (simp add: pos_le_divide_eq mult.commute)
    moreover have "(2::rat) ^ 52 = of_int (2 ^ 52)" by simp
    ultimately have "of_int (2 ^ 52) \<le> y / 2 powi ey" by simp
    then have "round_half_even (of_int (2 ^ 52)) \<le> round_half_even (y / 2 powi ey)" by (rule rhe_mono)
    then have "2 ^ 52 \<le> round_half_even (y / 2 powi ey)" by (simp only: rhe_of_int)
    then have "rat_of_int (2 ^ 52) \<le> of_int (round_half_even (y / 2 powi ey))" by (simp only: of_int_le_iff)
    then have "of_int (2 ^ 52) * 2 powi ey \<le> fl64 y" unfolding fy using q by (simp only: mult_right_mono less_imp_le)
    moreover have "rat_of_int (2 ^ 52) * 2 powi ey = 2 powi (ey + 52)" by (simp add: power_int_add)
    ultimately have Y: "2 powi (ey + 52) \<le> fl64 y" by simp
    have "(2::rat) powi (ex + 53) \<le> 2 powi (ey + 52)" using lt by (intro power_int_increasing) simp_all
    with X Y show ?thesis by linarith
  qed
qed

lemma fl64_mono: assumes "x \<le> y" shows "fl64 x \<le> fl64 y"
proof -
  consider "0 < x" | "x \<le> 0" "0 \<le> y" | "y < 0" by linarith
  then show ?thesis
  proof cases
    case 1
    then show ?thesis using assms by (rule fl64_mono_pos)
  next
    case 2
    from 2(1) have "0 \<le> fl64 (- x)" by (intro fl64_nonneg) simp
    then have "fl64 x \<le> 0" by (simp add: fl64_uminus)
    with fl64_nonneg [OF 2(2)] show ?thesis by linarith
  next
    case 3
    then have "0 < - y" "- y \<le> - x" using assms by simp_all
    then have "fl64 (- y) \<le> fl64 (- x)" by (rule fl64_mono_pos)
    then show ?thesis by (simp add: fl64_uminus)
  qed
qed

lemma fl64_of_int_exact:
  assumes "\<bar>h\<bar> < 2 ^ 53"
  shows "fl64 (of_int h) = of_int h"
proof (cases "h = 0")
  case True
  then show ?thesis by (simp add: fl64_def)
next
  case False
  define x where "x = \<bar>rat_of_int h\<bar>"
  have x0: "0 < x" using False by (simp add: x_def)
  have "x < of_int (2 ^ 53)" unfolding x_def using assms by (metis of_int_abs of_int_less_iff)
  then have xl: "x < 2 powi 53" by simp
  have "2 powi ilog2 x \<le> x" using ilog2_bounds [OF x0] by simp
  from pow2_exp_less [OF this xl] have E: "ilog2 x \<le> 52" by simp
  define e where "e = max (ilog2 x - 52) (- 1074)"
  have e0: "e \<le> 0" using E by (simp add: e_def)
  define m where "m = nat (- e)"
  have em: "e = - int m" using e0 by (simp add: m_def)
  have pe: "(2::rat) powi e = 1 / 2 ^ m" unfolding em by (simp add: power_int_minus_divide)
  have "rat_of_int h / 2 powi e = of_int (h * 2 ^ m)" by (simp add: pe)
  then have "round_half_even (rat_of_int h / 2 powi e) = h * 2 ^ m" by (simp only: rhe_of_int)
  then have "rat_of_int (round_half_even (rat_of_int h / 2 powi e)) * 2 powi e = of_int h"
    by (simp add: pe)
  then show ?thesis using False by (simp add: fl64_def Let_def e_def [symmetric] x_def [symmetric])
qed

lemma math_Round_mono: assumes "x \<le> y" shows "math_Round x \<le> math_Round y"
proof -
  consider "0 \<le> x" | "x < 0" "0 \<le> y" | "y < 0" by linarith
  then show ?thesis
  proof cases
    case 1
    then have "0 \<le> y" using assms by linarith
    moreover have "\<lfloor>x + 1 / 2\<rfloor> \<le> \<lfloor>y + 1 / 2\<rfloor>" using assms by (intro floor_mono) simp
    ultimately show ?thesis using 1 by (simp add: math_Round_def)
  next
    case 2
    define a where "a = \<lfloor>- x + 1 / 2\<rfloor>"
    define b where "b = \<lfloor>y + 1 / 2\<rfloor>"
    have "0 \<le> - x + 1 / 2" "0 \<le> y + 1 / 2" using 2 by linarith+
    then have "0 \<le> a" "0 \<le> b" unfolding a_def b_def by (simp_all only: zero_le_floor)
    then have "- rat_of_int a \<le> of_int b" by simp
    moreover have "math_Round x = - of_int a" using 2(1) by (simp add: math_Round_def a_def)
    moreover have "math_Round y = of_int b" using 2(2) by (simp add: math_Round_def b_def)
    ultimately show ?thesis by simp
  next
    case 3
    then have "x < 0" using assms by linarith
    moreover have "\<lfloor>- y + 1 / 2\<rfloor> \<le> \<lfloor>- x + 1 / 2\<rfloor>" using assms by (intro floor_mono) simp
    ultimately show ?thesis using 3 by (simp add: math_Round_def)
  qed
qed

lemma floor_half_away:
  fixes z :: rat
  assumes "0 \<le> z"
  defines "k \<equiv> \<lfloor>z + 1 / 2\<rfloor>"
  shows "\<bar>of_int k - z\<bar> \<le> 1 / 2" and "\<bar>of_int k - z\<bar> = 1 / 2 \<Longrightarrow> rat_of_int k = z + 1 / 2"
    and "0 \<le> rat_of_int k"
proof -
  have a: "of_int k \<le> z + 1 / 2" "z + 1 / 2 < of_int k + 1" unfolding k_def by linarith+
  from a show "\<bar>of_int k - z\<bar> \<le> 1 / 2" by linarith
  from a show "\<bar>of_int k - z\<bar> = 1 / 2 \<Longrightarrow> rat_of_int k = z + 1 / 2" by linarith
  have "0 \<le> z + 1 / 2" using assms(1) by linarith
  then have "0 \<le> k" unfolding k_def by (simp only: zero_le_floor)
  then show "0 \<le> rat_of_int k" by simp
qed

lemma math_Round_half_away:
  "\<exists>k::int. math_Round x = of_int k \<and> \<bar>of_int k - x\<bar> \<le> 1 / 2
      \<and> (\<bar>of_int k - x\<bar> = 1 / 2 \<longrightarrow> \<bar>rat_of_int k\<bar> = \<bar>x\<bar> + 1 / 2)"
proof (cases "0 \<le> x")
  case True
  define k where "k = \<lfloor>x + 1 / 2\<rfloor>"
  note f = floor_half_away [OF True, folded k_def]
  have "math_Round x = of_int k" using True by (simp add: math_Round_def k_def)
  moreover have "\<bar>of_int k - x\<bar> = 1 / 2 \<longrightarrow> \<bar>rat_of_int k\<bar> = \<bar>x\<bar> + 1 / 2"
    using f(2,3) True by linarith
  ultimately show ?thesis using f(1) by blast
next
  case False
  then have nx: "0 \<le> - x" by simp
  define j where "j = \<lfloor>- x + 1 / 2\<rfloor>"
  note f = floor_half_away [OF nx, folded j_def]
  have "math_Round x = of_int (- j)" using False by (simp add: math_Round_def j_def)
  moreover have "\<bar>of_int (- j) - x\<bar> \<le> 1 / 2"
    using f(1) of_int_minus [of j, where ?'a = rat] by linarith
  moreover have "\<bar>of_int (- j) - x\<bar> = 1 / 2 \<longrightarrow> \<bar>rat_of_int (- j)\<bar> = \<bar>x\<bar> + 1 / 2"
  proof
    assume "\<bar>of_int (- j) - x\<bar> = 1 / 2"
    then have "\<bar>of_int j - (- x)\<bar> = 1 / 2"
      using of_int_minus [of j, where ?'a = rat] by linarith
    from f(2) [OF this] f(3) False show "\<bar>rat_of_int (- j)\<bar> = \<bar>x\<bar> + 1 / 2"
      using of_int_minus [of j, where ?'a = rat] by linarith
  qed
  ultimately show ?thesis by blast
qed

lemma scale_100: "math_Pow10 2 = 100"
  by code_simp

lemma round_go_2: "round_go v 2 = fl64 (math_Round (fl64 (v * 100)) / 100)"
  by (simp add: round_go_def scale_100 fdiv_def fmul_def)

lemma round_go_mono: assumes "x \<le> y" shows "round_go x 2 \<le> round_go y 2"
proof -
  have "fl64 (x * 100) \<le> fl64 (y * 100)" using assms by (intro fl64_mono) simp
  then have "math_Round (fl64 (x * 100)) \<le> math_Round (fl64 (y * 100))" by (rule math_Round_mono)
  then have "math_Round (fl64 (x * 100)) / 100 \<le> math_Round (fl64 (y * 100)) / 100" by simp
  then show ?thesis unfolding round_go_2 by (rule fl64_mono)
qed

subsection \<open>Durations\<close>

lemma Hour_eq: "Hour = 3600000000000"
  by (simp add: Hour_def Second_def)

lemma go_quot_Hour: "go_quot d Hour = (if 0 \<le> d then d div Hour else - ((- d) div Hour))"
  by (simp add: go_quot_def Hour_eq)

lemma go_rem_Hour: "go_rem d Hour = (if 0 \<le> d then d mod Hour else - ((- d) mod Hour))"
  by (simp add: go_rem_def Hour_eq)

lemma go_quot_rem_Hour: "go_quot d Hour * Hour + go_rem d Hour = d"
proof (cases "0 \<le> d")
  case True
  then show ?thesis by (simp add: go_quot_Hour go_rem_Hour)
next
  case False
  define a b where "a = (- d) div Hour * Hour" and "b = (- d) mod Hour"
  have "a + b = - d" unfolding a_def b_def by (rule div_mult_mod_eq)
  then have "- a + - b = d" by linarith
  moreover have "- ((- d) div Hour) * Hour = - a" by (simp add: a_def)
  ultimately have "- ((- d) div Hour) * Hour + - ((- d) mod Hour) = d" by (simp only: b_def)
  then show ?thesis using False by (simp only: go_quot_Hour go_rem_Hour if_False)
qed

lemma go_quot_Hour_mono: assumes "d \<le> d'" shows "go_quot d Hour \<le> go_quot d' Hour"
proof -
  have H: "0 < Hour" by (simp add: Hour_eq)
  consider "0 \<le> d" | "d < 0" "0 \<le> d'" | "d' < 0" by linarith
  then show ?thesis
  proof cases
    case 1
    then have "0 \<le> d'" using assms by linarith
    then show ?thesis using 1 assms H by (simp add: go_quot_Hour zdiv_mono1)
  next
    case 2
    have "0 \<le> (- d) div Hour" using 2(1) H by (simp add: pos_imp_zdiv_nonneg_iff)
    moreover have "0 \<le> d' div Hour" using 2(2) H by (simp add: pos_imp_zdiv_nonneg_iff)
    ultimately show ?thesis using 2 by (simp add: go_quot_Hour)
  next
    case 3
    then have "d < 0" using assms by linarith
    moreover have "(- d') div Hour \<le> (- d) div Hour" using assms H by (intro zdiv_mono1) simp_all
    ultimately show ?thesis using 3 by (simp add: go_quot_Hour)
  qed
qed

lemma go_rem_Hour_bounds:
  "0 \<le> d \<Longrightarrow> 0 \<le> go_rem d Hour \<and> go_rem d Hour < Hour"
  "d \<le> 0 \<Longrightarrow> - Hour < go_rem d Hour \<and> go_rem d Hour \<le> 0"
  unfolding go_rem_Hour by (auto simp: Hour_eq)

lemma go_quot_Hour_sign:
  "0 \<le> d \<Longrightarrow> 0 \<le> go_quot d Hour"
  "d \<le> 0 \<Longrightarrow> go_quot d Hour \<le> 0"
  unfolding go_quot_Hour by (auto simp: Hour_eq pos_imp_zdiv_nonneg_iff)

lemma go_quot_Hour_small:
  assumes "minDuration \<le> d" "d \<le> maxDuration"
  shows "\<bar>go_quot d Hour\<bar> < 2 ^ 53"
proof (cases "0 \<le> d")
  case True
  have "d div Hour \<le> maxDuration div Hour" using assms(2) by (intro zdiv_mono1) (simp_all add: Hour_eq)
  also have "\<dots> < 2 ^ 53" by (simp add: maxDuration_def Hour_eq)
  finally show ?thesis using True go_quot_Hour_sign(1) [OF True] by (simp add: go_quot_Hour)
next
  case False
  have "(- d) div Hour \<le> (- minDuration) div Hour" using assms(1) by (intro zdiv_mono1) (simp_all add: Hour_eq)
  also have "\<dots> < 2 ^ 53" by (simp add: minDuration_def Hour_eq)
  finally have "(- d) div Hour < 2 ^ 53" .
  moreover have "0 \<le> (- d) div Hour" using False by (simp add: pos_imp_zdiv_nonneg_iff Hour_eq)
  ultimately show ?thesis using False by (simp add: go_quot_Hour)
qed

text \<open>The summand of \<open>Hours\<close> for the fraction of an hour.\<close>

lemma frac_hour:
  assumes "\<bar>n\<bar> \<le> Hour"
  shows "fdiv (float64_of_int n) (60 * 60 * 1000000000) = fl64 (of_int n / 3600000000000)"
proof -
  have "\<bar>n\<bar> < 2 ^ 53" using assms by (simp add: Hour_eq)
  then show ?thesis by (simp add: fdiv_def float64_of_int_def fl64_of_int_exact)
qed

lemma fl64_1: "fl64 1 = 1" "fl64 (- 1) = - 1"
  using fl64_of_int_exact [of 1] fl64_of_int_exact [of "- 1"] by simp_all

lemma frac_hour_bounds:
  assumes "\<bar>n\<bar> \<le> Hour"
  shows "- 1 \<le> fl64 (of_int n / 3600000000000)" "fl64 (of_int n / 3600000000000) \<le> 1"
    "0 \<le> n \<Longrightarrow> 0 \<le> fl64 (of_int n / 3600000000000)"
    "n \<le> 0 \<Longrightarrow> fl64 (of_int n / 3600000000000) \<le> 0"
proof -
  have n: "- 3600000000000 \<le> rat_of_int n" "rat_of_int n \<le> 3600000000000"
    using assms by (simp_all add: Hour_eq abs_le_iff)
  then have "- 1 \<le> rat_of_int n / 3600000000000" "rat_of_int n / 3600000000000 \<le> 1" by simp_all
  from fl64_mono [OF this(1)] fl64_mono [OF this(2)]
  show "- 1 \<le> fl64 (of_int n / 3600000000000)" "fl64 (of_int n / 3600000000000) \<le> 1"
    by (simp_all add: fl64_1)
  show "0 \<le> n \<Longrightarrow> 0 \<le> fl64 (of_int n / 3600000000000)" by (intro fl64_nonneg) simp
  show "n \<le> 0 \<Longrightarrow> fl64 (of_int n / 3600000000000) \<le> 0"
    using fl64_nonneg [of "- (of_int n / 3600000000000)"] by (simp add: fl64_uminus)
qed

lemma Hours_eq:
  assumes "minDuration \<le> d" "d \<le> maxDuration"
  shows "Hours d = fl64 (of_int (go_quot d Hour) + fl64 (of_int (go_rem d Hour) / 3600000000000))"
proof -
  have "\<bar>go_rem d Hour\<bar> \<le> Hour"
    using go_rem_Hour_bounds [of d] by (cases "0 \<le> d") auto
  from frac_hour [OF this] show ?thesis
    by (simp add: Hours_def Let_def fadd_def float64_of_int_def
          fl64_of_int_exact [OF go_quot_Hour_small [OF assms]])
qed

lemma Hours_mono:
  assumes "minDuration \<le> d" "d \<le> d'" "d' \<le> maxDuration"
  shows "Hours d \<le> Hours d'"
proof -
  define h n h' n' where "h = go_quot d Hour" and "n = go_rem d Hour"
    and "h' = go_quot d' Hour" and "n' = go_rem d' Hour"
  define g :: "int \<Rightarrow> rat" where "g = (\<lambda>n. fl64 (of_int n / 3600000000000))"
  have d: "minDuration \<le> d'" "d \<le> maxDuration" using assms by linarith+
  have E: "Hours d = fl64 (of_int h + g n)" "Hours d' = fl64 (of_int h' + g n')"
    using Hours_eq [OF assms(1) d(2)] Hours_eq [OF d(1) assms(3)]
    by (simp_all add: h_def n_def h'_def n'_def g_def)
  have hh: "h \<le> h'" unfolding h_def h'_def using assms(2) by (rule go_quot_Hour_mono)
  have an: "\<bar>n\<bar> \<le> Hour" "\<bar>n'\<bar> \<le> Hour"
    using go_rem_Hour_bounds [of d] go_rem_Hour_bounds [of d']
    by (cases "0 \<le> d"; cases "0 \<le> d'"; auto simp: n_def n'_def)+
  have gn: "- 1 \<le> g n" "g n \<le> 1" "- 1 \<le> g n'" "g n' \<le> 1"
    using frac_hour_bounds(1,2) [OF an(1)] frac_hour_bounds(1,2) [OF an(2)] by (simp_all add: g_def)
  have "rat_of_int h + g n \<le> of_int h' + g n'"
  proof (cases "h = h'")
    case True
    have "h * Hour + n = d" "h' * Hour + n' = d'"
      using go_quot_rem_Hour [of d] go_quot_rem_Hour [of d'] by (simp_all add: h_def n_def h'_def n'_def)
    with True assms(2) have "n \<le> n'" by simp
    then have "rat_of_int n / 3600000000000 \<le> of_int n' / 3600000000000" by simp
    then have "g n \<le> g n'" unfolding g_def by (rule fl64_mono)
    then show ?thesis using True by simp
  next
    case False
    with hh have "h + 1 \<le> h'" by simp
    then have lt: "rat_of_int h + 1 \<le> of_int h'" by (metis of_int_1 of_int_add of_int_le_iff)
    consider "0 \<le> d" | "d' \<le> 0" | "d < 0" "0 < d'" by linarith
    then show ?thesis
    proof cases
      case 1
      then have "0 \<le> d'" using assms(2) by linarith
      then have "0 \<le> n'" using go_rem_Hour_bounds(1) [of d'] by (simp add: n'_def)
      from frac_hour_bounds(3) [OF an(2) this] have "0 \<le> g n'" by (simp add: g_def)
      with gn lt show ?thesis by linarith
    next
      case 2
      then have "d \<le> 0" using assms(2) by linarith
      then have "n \<le> 0" using go_rem_Hour_bounds(2) [of d] by (simp add: n_def)
      from frac_hour_bounds(4) [OF an(1) this] have "g n \<le> 0" by (simp add: g_def)
      with gn lt show ?thesis by linarith
    next
      case 3
      have "n \<le> 0" using 3(1) go_rem_Hour_bounds(2) [of d] by (simp add: n_def)
      from frac_hour_bounds(4) [OF an(1) this] have a: "g n \<le> 0" by (simp add: g_def)
      have "0 \<le> n'" using 3(2) go_rem_Hour_bounds(1) [of d'] by (simp add: n'_def)
      from frac_hour_bounds(3) [OF an(2) this] have b: "0 \<le> g n'" by (simp add: g_def)
      from a b lt show ?thesis by linarith
    qed
  qed
  then show ?thesis unfolding E by (rule fl64_mono)
qed

lemma Sub_range: "minDuration \<le> Sub t u \<and> Sub t u \<le> maxDuration"
  by (simp add: Sub_def Let_def minDuration_def maxDuration_def)

lemma Sub_nonneg: "u \<le> t \<Longrightarrow> 0 \<le> Sub t u"
  by (simp add: Sub_def Let_def minDuration_def maxDuration_def)

lemma Sub_neg: "t < u \<Longrightarrow> Sub t u \<le> - 1"
  by (simp add: Sub_def Let_def minDuration_def maxDuration_def)

lemma Sub_far: "t + 432 * Second \<le> u \<Longrightarrow> Sub t u \<le> - 432000000000"
  by (simp add: Sub_def Let_def minDuration_def maxDuration_def Second_def)

lemma Sub_near: "u < t + 432 * Second \<Longrightarrow> - 431999999999 \<le> Sub t u"
  by (simp add: Sub_def Let_def minDuration_def maxDuration_def Second_def)

lemma published_mono:
  assumes "minDuration \<le> d" "d \<le> d'" "d' \<le> maxDuration"
  shows "round_go (fdiv (Hours d) 24) 2 \<le> round_go (fdiv (Hours d') 24) 2"
proof -
  have "Hours d / 24 \<le> Hours d' / 24" using Hours_mono [OF assms] by simp
  then have "fdiv (Hours d) 24 \<le> fdiv (Hours d') 24" unfolding fdiv_def by (rule fl64_mono)
  then show ?thesis by (rule round_go_mono)
qed

lemma published_at_0: "round_go (fdiv (Hours 0) 24) 2 = 0"
  by code_simp

lemma published_at_minus_1: "round_go (fdiv (Hours (- 1)) 24) 2 = 0"
  by code_simp

lemma published_at_432s: "round_go (fdiv (Hours (- 432000000000)) 24) 2 = fl64 (- 1 / 100)"
  by code_simp

lemma published_below_432s: "round_go (fdiv (Hours (- 431999999999)) 24) 2 = 0"
  by code_simp

lemma fl64_hundredth_neg: "fl64 (- 1 / 100) < 0"
  by code_simp

text \<open>
  The \<open>float64\<close> values that \<open>fetchData\<close> computes stay far below the largest
  finite \<open>float64\<close>: no operation of the source overflows.
\<close>

lemma float_values_bounded:
  "\<bar>Hours (Sub t u)\<bar> \<le> 2562048
   \<and> \<bar>fdiv (Hours (Sub t u)) 24\<bar> \<le> 106752
   \<and> \<bar>fl64 (fdiv (Hours (Sub t u)) 24 * 100)\<bar> \<le> 10675200
   \<and> \<bar>published_days t u\<bar> \<le> 106752"
proof -
  define d where "d = Sub t u"
  have r: "minDuration \<le> d" "d \<le> maxDuration" using Sub_range [of t u] by (simp_all add: d_def)
  have h: "Hours minDuration \<le> Hours d" "Hours d \<le> Hours maxDuration"
    using Hours_mono [OF order_refl r(1) r(2)] Hours_mono [OF r(1) r(2) order_refl]
    by simp_all
  have h0: "- 2562048 \<le> Hours minDuration" "Hours maxDuration \<le> 2562048" by code_simp+
  have q: "fdiv (Hours minDuration) 24 \<le> fdiv (Hours d) 24" "fdiv (Hours d) 24 \<le> fdiv (Hours maxDuration) 24"
    unfolding fdiv_def using h by (auto intro!: fl64_mono)
  have q0: "- 106752 \<le> fdiv (Hours minDuration) 24" "fdiv (Hours maxDuration) 24 \<le> 106752" by code_simp+
  have p: "fl64 (fdiv (Hours minDuration) 24 * 100) \<le> fl64 (fdiv (Hours d) 24 * 100)"
      "fl64 (fdiv (Hours d) 24 * 100) \<le> fl64 (fdiv (Hours maxDuration) 24 * 100)"
    using q by (auto intro!: fl64_mono)
  have p0: "- 10675200 \<le> fl64 (fdiv (Hours minDuration) 24 * 100)"
      "fl64 (fdiv (Hours maxDuration) 24 * 100) \<le> 10675200" by code_simp+
  have v: "round_go (fdiv (Hours minDuration) 24) 2 \<le> round_go (fdiv (Hours d) 24) 2"
      "round_go (fdiv (Hours d) 24) 2 \<le> round_go (fdiv (Hours maxDuration) 24) 2"
    using published_mono [OF order_refl r(1) r(2)] published_mono [OF r(1) r(2) order_refl]
    by simp_all
  have v0: "- 106752 \<le> round_go (fdiv (Hours minDuration) 24) 2"
      "round_go (fdiv (Hours maxDuration) 24) 2 \<le> 106752" by code_simp+
  from h h0 q q0 p p0 v v0 show ?thesis unfolding d_def [symmetric] by (simp add: abs_le_iff)
qed

section \<open>Properties of the store and of the collector\<close>

lemma metric_metric_Set [simp]:
  "metric (metric_Set url origin v st) = (metric st)((url, origin) \<mapsto> v)"
  by (simp add: metric_Set_def)

lemma metric_log_Printf [simp]: "metric (log_Printf f args st) = metric st"
  by (simp add: log_Printf_def)

lemma fetchData_writes_own_key:
  "\<exists>v. metric (fetchData w u st) = (metric st)(labels u \<mapsto> v)"
  by (auto simp: fetchData_def http_Do_def time_Now_def Let_def
           split: sum.splits prod.splits)

lemma fetchData_other_key:
  "k \<noteq> labels u \<Longrightarrow> metric (fetchData w u st) k = metric st k"
  using fetchData_writes_own_key [of w u st] by auto

lemma dom_fetchData: "dom (metric (fetchData w u st)) = insert (labels u) (dom (metric st))"
  using fetchData_writes_own_key [of w u st] by auto

lemma dom_fold_fetchData:
  "dom (metric (fold (fetchData w) us st)) = dom (metric st) \<union> labels ` set us"
  by (induction us arbitrary: st) (auto simp: dom_fetchData)

lemma fold_fetchData_other_key:
  "k \<notin> labels ` set us \<Longrightarrow> metric (fold (fetchData w) us st) k = metric st k"
  by (induction us arbitrary: st) (auto simp: fetchData_other_key)

lemma fold_fetchData_own:
  assumes "distinct (map labels us)" "i < length us"
  shows "metric (fold (fetchData w) us st) (labels (us ! i))
       = metric (fetchData w (us ! i) (fold (fetchData w) (take i us) st)) (labels (us ! i))"
proof -
  let ?mid = "fetchData w (us ! i) (fold (fetchData w) (take i us) st)"
  have us: "us = take i us @ (us ! i) # drop (Suc i) us"
    using assms(2) by (simp add: id_take_nth_drop)
  have "distinct (map labels (take i us @ (us ! i) # drop (Suc i) us))"
    using assms(1) us by simp
  then have "labels (us ! i) \<notin> labels ` set (drop (Suc i) us)"
    by auto
  then have "metric (fold (fetchData w) (drop (Suc i) us) ?mid) (labels (us ! i))
           = metric ?mid (labels (us ! i))"
    by (rule fold_fetchData_other_key)
  moreover have "fold (fetchData w) us st = fold (fetchData w) (drop (Suc i) us) ?mid"
    by (subst us) simp
  ultimately show ?thesis by simp
qed

lemma metric_fold_Set:
  "metric (fold (\<lambda>u. metric_Set (URL u) (OriginPrometheus u) v) us st) k
     = (if k \<in> labels ` set us then Some v else metric st k)"
  by (induction us arbitrary: st) auto

lemma serving_fold_Set:
  "serving (fold (\<lambda>u. metric_Set (URL u) (OriginPrometheus u) v) us st) = serving st"
  by (induction us arbitrary: st) (auto simp: metric_Set_def)

lemma readConfig_state:
  "readConfig w p st = (r, st1) \<Longrightarrow>
     metric st1 = metric st \<and> serving st1 = serving st \<and> logs st1 = logs st"
  by (auto simp: readConfig_def ioutil_ReadFile_def split: sum.splits)

lemma scheduler_add:
  "scheduler (k + m) w st =
     (case scheduler k w st of
        Exited code st1 \<Rightarrow> Exited code st1
      | Running st1 \<Rightarrow> scheduler m w st1)"
  by (induction k arbitrary: st) (auto split: outcome.splits)

lemma cycle_Exited:
  "cycle w st = Exited code st' \<Longrightarrow>
     code = 1 \<and> (\<exists>cfg err st1. readConfig w ''config.json'' st = ((cfg, Some err), st1)
                  \<and> st' = log_Printf ''Error reading config file: %v'' [AErr err] st1)"
  by (auto simp: cycle_def log_Fatalf_def split: prod.splits option.splits)

lemma scheduler_Exited:
  "scheduler n w st = Exited code st' \<Longrightarrow>
     code = 1 \<and> (\<exists>k st0 cfg err st1. k < n \<and> scheduler k w st = Running st0
                  \<and> readConfig w ''config.json'' st0 = ((cfg, Some err), st1)
                  \<and> st' = log_Printf ''Error reading config file: %v'' [AErr err] st1)"
proof (induction n arbitrary: st)
  case 0
  then show ?case by simp
next
  case (Suc n)
  show ?case
  proof (cases "cycle w st")
    case (Running st1)
    with Suc.prems have "scheduler n w st1 = Exited code st'" by simp
    from Suc.IH [OF this] obtain k st0 cfg err st2 where
      c: "code = 1" and k: "k < n" "scheduler k w st1 = Running st0"
      "readConfig w ''config.json'' st0 = ((cfg, Some err), st2)"
      "st' = log_Printf ''Error reading config file: %v'' [AErr err] st2" by blast
    from k(2) Running have "scheduler (Suc k) w st = Running st0" by simp
    with c k show ?thesis by (metis Suc_less_eq)
  next
    case (Exited c st1)
    with Suc.prems have e: "c = code" "st1 = st'" by simp_all
    from cycle_Exited [OF Exited [unfolded e]]
    have "code = 1 \<and> (\<exists>cfg err st1. readConfig w ''config.json'' st = ((cfg, Some err), st1)
                  \<and> st' = log_Printf ''Error reading config file: %v'' [AErr err] st1)" .
    moreover have "scheduler 0 w st = Running st" by simp
    ultimately show ?thesis by (metis zero_less_Suc)
  qed
qed

lemma fetchData_ignores_config_source:
  "fetchData (w\<lparr>flagConfig := p, readFile := rf\<rparr>) = fetchData w"
  by (rule ext, rule ext)
     (simp add: fetchData_def http_NewRequest_def http_Do_def time_Now_def
           split: sum.splits option.splits)

subsection \<open>Parsing a text in the layout\<close>

lemma of_char_digitChar:
  assumes "0 \<le> n" "n < 10"
  shows "(of_char (digitChar n) :: nat) = 48 + nat n"
proof -
  have "48 + nat n < 256" using assms by simp
  then show ?thesis by (simp add: digitChar_def)
qed

lemma digitVal_digitChar: "0 \<le> n \<Longrightarrow> n < 10 \<Longrightarrow> digitVal (digitChar n) = n"
  by (simp add: digitVal_def of_char_digitChar)

lemma digitChar_not_space: "0 \<le> n \<Longrightarrow> n < 10 \<Longrightarrow> digitChar n \<noteq> CHR '' ''"
proof
  assume a: "0 \<le> n" "n < 10" "digitChar n = CHR '' ''"
  from of_char_digitChar [OF a(1,2)] a(3) have "(of_char (CHR '' '') :: nat) = 48 + nat n" by simp
  then show False by simp
qed

lemma isDigit_0: "0 \<le> n \<Longrightarrow> n < 10 \<Longrightarrow> isDigit (digitChar n # cs) 0"
  by (simp add: isDigit_def of_char_digitChar)

lemma isDigit_1: "0 \<le> n \<Longrightarrow> n < 10 \<Longrightarrow> isDigit (c # digitChar n # cs) 1"
  by (simp add: isDigit_def of_char_digitChar)

lemma getnum_twoDigits:
  assumes "0 \<le> n" "n < 100"
  shows "getnum a (twoDigits n @ rest) fixed = Inr (n, rest)"
proof -
  have d: "0 \<le> n div 10" "n div 10 < 10" "0 \<le> n mod 10" "n mod 10 < 10"
    using assms by simp_all
  show ?thesis
    using isDigit_0 [OF d(1,2)] isDigit_1 [OF d(3,4)]
    by (simp add: getnum_def twoDigits_def digitVal_digitChar [OF d(1,2)] digitVal_digitChar [OF d(3,4)])
qed

lemma leadingInt_digit:
  assumes "0 \<le> n" "n < 10" "0 \<le> x" "x < 10000"
  shows "leadingInt x (digitChar n # cs) = leadingInt (x * 10 + n) cs"
proof -
  have "\<not> x > 2 ^ 63 div 10" using assms by simp
  moreover have "\<not> x * 10 + n > 2 ^ 63" using assms by simp
  moreover have "nat n < 10" using assms by simp
  ultimately show ?thesis
    using assms by (simp add: of_char_digitChar digitVal_digitChar Let_def)
qed

lemma decimal4:
  fixes y :: int
  shows "y = ((y div 1000 * 10 + y div 100 mod 10) * 10 + y div 10 mod 10) * 10 + y mod 10"
proof -
  define q1 q2 q3 r0 r1 r2 where "q1 = y div 10" and "q2 = y div 100" and "q3 = y div 1000"
    and "r0 = y mod 10" and "r1 = y div 10 mod 10" and "r2 = y div 100 mod 10"
  have 1: "y = q1 * 10 + r0" by (simp add: q1_def r0_def)
  have "q1 div 10 = q2" "q2 div 10 = q3"
    by (simp_all add: q1_def q2_def q3_def zdiv_zmult2_eq [symmetric])
  then have 2: "q1 = q2 * 10 + r1" and 3: "q2 = q3 * 10 + r2"
    using div_mult_mod_eq [of q1 10] div_mult_mod_eq [of q2 10]
    by (simp_all add: r1_def r2_def q1_def [symmetric] q2_def [symmetric])
  have "y = ((q3 * 10 + r2) * 10 + r1) * 10 + r0"
    by (subst 1, subst 2, subst 3) (rule refl)
  then show ?thesis by (simp only: q3_def r0_def r1_def r2_def)
qed

lemma leadingInt_four:
  assumes "0 \<le> a" "a < 10" "0 \<le> b" "b < 10" "0 \<le> c" "c < 10" "0 \<le> d" "d < 10"
  shows "leadingInt 0 [digitChar a, digitChar b, digitChar c, digitChar d]
           = Some (((a * 10 + b) * 10 + c) * 10 + d, [])"
proof -
  have 1: "leadingInt 0 [digitChar a, digitChar b, digitChar c, digitChar d]
         = leadingInt a [digitChar b, digitChar c, digitChar d]"
    using leadingInt_digit [OF assms(1,2), of 0] by simp
  have 2: "leadingInt a [digitChar b, digitChar c, digitChar d]
         = leadingInt (a * 10 + b) [digitChar c, digitChar d]"
    using assms by (intro leadingInt_digit) simp_all
  have 3: "leadingInt (a * 10 + b) [digitChar c, digitChar d]
         = leadingInt ((a * 10 + b) * 10 + c) [digitChar d]"
    using assms by (intro leadingInt_digit) simp_all
  have 4: "leadingInt ((a * 10 + b) * 10 + c) [digitChar d]
         = leadingInt (((a * 10 + b) * 10 + c) * 10 + d) []"
    using assms by (intro leadingInt_digit) simp_all
  show ?thesis unfolding 1 2 3 4 by simp
qed

lemma atoi_fourDigits:
  assumes "0 \<le> y" "y < 10000"
  shows "atoi (fourDigits y) = Some y"
proof -
  define a b c d where "a = y div 1000" and "b = y div 100 mod 10" and "c = y div 10 mod 10" and "d = y mod 10"
  have r: "0 \<le> a" "a < 10" "0 \<le> b" "b < 10" "0 \<le> c" "c < 10" "0 \<le> d" "d < 10"
    using assms by (simp_all add: a_def b_def c_def d_def)
  have y: "((a * 10 + b) * 10 + c) * 10 + d = y"
    unfolding a_def b_def c_def d_def by (rule decimal4 [symmetric])
  have f: "fourDigits y = [digitChar a, digitChar b, digitChar c, digitChar d]"
    by (simp add: fourDigits_def a_def b_def c_def d_def)
  have "(of_char (digitChar a) :: nat) = 48 + nat a" using r by (simp add: of_char_digitChar)
  then have "(of_char (digitChar a) :: nat) \<noteq> of_char CHR ''-''" "(of_char (digitChar a) :: nat) \<noteq> of_char CHR ''+''"
    by simp_all
  then have h: "digitChar a \<noteq> CHR ''-''" "digitChar a \<noteq> CHR ''+''" by auto
  have l: "leadingInt 0 [digitChar a, digitChar b, digitChar c, digitChar d] = Some (y, [])"
    using leadingInt_four [OF r] by (simp only: y)
  show ?thesis
    unfolding f using h by (simp add: atoi_def l del: leadingInt.simps)
qed

lemma parseField_year:
  assumes "0 \<le> y" "y < 10000"
  shows "parseField a stdLongYear f (fourDigits y @ rest) = Inr (f\<lparr>p_year := y\<rparr>, rest)"
proof -
  have l: "length (fourDigits y) = 4" by (simp add: fourDigits_def)
  have d: "isDigit (fourDigits y @ rest) 0"
    using assms by (simp add: fourDigits_def isDigit_0)
  show ?thesis using d l by (simp add: atoi_fourDigits [OF assms])
qed

lemma parseField_month:
  assumes "1 \<le> m" "m \<le> 12"
  shows "parseField a stdZeroMonth f (twoDigits m @ rest) = Inr (f\<lparr>p_month := m\<rparr>, rest)"
  using assms by (simp add: getnum_twoDigits)

lemma parseField_day:
  assumes "0 \<le> d" "d < 100"
  shows "parseField a stdZeroDay f (twoDigits d @ rest) = Inr (f\<lparr>p_day := d\<rparr>, rest)"
  using assms by (simp add: getnum_twoDigits)

lemma parseField_hour:
  assumes "0 \<le> h" "h < 24"
  shows "parseField a stdHour f (twoDigits h @ rest) = Inr (f\<lparr>p_hour := h\<rparr>, rest)"
  using assms by (simp add: getnum_twoDigits)

lemma parseField_minute:
  assumes "0 \<le> m" "m < 60"
  shows "parseField a stdZeroMinute f (twoDigits m @ rest) = Inr (f\<lparr>p_min := m\<rparr>, rest)"
  using assms by (simp add: getnum_twoDigits)

lemma parseField_second:
  assumes "0 \<le> s" "s < 60"
  shows "parseField a stdZeroSecond f (twoDigits s) = Inr (f\<lparr>p_sec := s, p_nsec := 0\<rparr>, [])"
  using assms getnum_twoDigits [of s a "[]" True] by (simp add: parseFraction_def)

lemma skip_char: "c \<noteq> CHR '' '' \<Longrightarrow> skip a (c # rest) [c] = Inr rest"
  by simp

lemma skip_space:
  assumes "0 \<le> n" "n < 100"
  shows "skip a (CHR '' '' # twoDigits n @ rest) '' '' = Inr (twoDigits n @ rest)"
proof -
  have "digitChar (n div 10) \<noteq> CHR '' ''" using assms by (intro digitChar_not_space) simp_all
  then show ?thesis by (simp add: cutspace_def twoDigits_def)
qed

lemma daysIn_le_31: assumes "1 \<le> month" "month \<le> 12" shows "daysIn month year \<le> 31"
proof -
  from assms have "month = 1 \<or> month = 2 \<or> month = 3 \<or> month = 4 \<or> month = 5 \<or> month = 6
      \<or> month = 7 \<or> month = 8 \<or> month = 9 \<or> month = 10 \<or> month = 11 \<or> month = 12"
    by arith
  then show ?thesis by (auto simp: daysIn_def daysBefore_def)
qed

lemma parseChunks_formatDateTime:
  assumes "0 \<le> year" "year < 10000" "1 \<le> month" "month \<le> 12"
    "0 \<le> day" "day < 100"
    "0 \<le> hour" "hour < 24" "0 \<le> minute" "minute < 60" "0 \<le> sec" "sec < 60"
  shows "parseChunks a layoutChunks f (formatDateTime year month day hour minute sec)
           = Inr (f\<lparr>p_year := year, p_month := month, p_day := day, p_hour := hour,
                    p_min := minute, p_sec := sec, p_nsec := 0\<rparr>, [])"
proof -
  have h: "0 \<le> hour" "hour < 100" using assms by simp_all
  show ?thesis
    unfolding layoutChunks_def formatDateTime_def
    by (simp add: parseField_year [OF assms(1,2)] parseField_month [OF assms(3,4)]
          parseField_day [OF assms(5,6)] parseField_hour [OF assms(7,8)]
          parseField_minute [OF assms(9,10)] parseField_second [OF assms(11,12)]
          skip_space [OF h] skip_char
        del: skip.simps(2) parseField.simps)
qed

lemma parse_formatDateTime:
  assumes "0 \<le> year" "year < 10000" "1 \<le> month" "month \<le> 12"
    "1 \<le> day" "day \<le> daysIn month year"
    "0 \<le> hour" "hour < 24" "0 \<le> minute" "minute < 60" "0 \<le> sec" "sec < 60"
  shows "parse (formatDateTime year month day hour minute sec) loc
           = Inr (Date year month day hour minute sec 0 loc)"
proof -
  have d: "0 \<le> day" "day < 100" using assms(5,6) daysIn_le_31 [OF assms(3,4), of year] by simp_all
  show ?thesis
    using assms(5,6)
    by (simp add: parse_def no_fields_def
          parseChunks_formatDateTime [OF assms(1-4) d assms(7-12)])
qed

subsection \<open>The published value\<close>

lemma fetchData_success:
  assumes "http_NewRequest w ''POST'' (URL u) = Inr req"
    and "http_Do w req st = (Inr body, st1)"
    and "decodeResponse w body = Inr r"
    and "DateLimit (Data r) \<noteq> []"
    and "time_Parse (DateLimit (Data r)) = Inr dateLimit"
  shows "metric (fetchData w u st)
           = (metric st)(labels u \<mapsto> published_days dateLimit (now w (tick st1)))"
  using assms by (auto simp: fetchData_def http_Do_def time_Now_def)

lemma published_days_nonneg:
  assumes "currentTime \<le> dateLimit"
  shows "0 \<le> published_days dateLimit currentTime"
proof -
  have "minDuration \<le> 0" by (simp add: minDuration_def)
  from published_mono [OF this Sub_nonneg [OF assms]] Sub_range [of dateLimit currentTime]
  show ?thesis by (simp add: published_at_0)
qed

lemma published_days_nonpos:
  assumes "dateLimit < currentTime"
  shows "published_days dateLimit currentTime \<le> 0"
proof -
  have "- 1 \<le> maxDuration" by (simp add: maxDuration_def)
  from published_mono [OF _ Sub_neg [OF assms] this] Sub_range [of dateLimit currentTime]
  show ?thesis by (simp add: published_at_minus_1)
qed

lemma published_days_far:
  assumes "dateLimit + 432 * Second \<le> currentTime"
  shows "published_days dateLimit currentTime < 0"
proof -
  have "- 432000000000 \<le> maxDuration" by (simp add: maxDuration_def)
  from published_mono [OF _ Sub_far [OF assms] this] Sub_range [of dateLimit currentTime]
  have "published_days dateLimit currentTime \<le> fl64 (- 1 / 100)" by (simp add: published_at_432s)
  with fl64_hundredth_neg show ?thesis by linarith
qed

lemma published_days_near:
  assumes "currentTime < dateLimit + 432 * Second"
  shows "0 \<le> published_days dateLimit currentTime"
proof -
  have "minDuration \<le> - 431999999999" by (simp add: minDuration_def)
  from published_mono [OF this Sub_near [OF assms]] Sub_range [of dateLimit currentTime]
  show ?thesis by (simp add: published_below_432s)
qed

lemma Date_shift: "Date y m d h mi s ns loc = Date y m d h mi s ns UTC - loc * 1000000000"
  by (simp add: Date_def UTC_def Let_def algebra_simps)

lemma parse_shift:
  "(parse s UTC = Inr t) = (parse s loc = Inr (t - loc * 1000000000))"
  by (auto simp: parse_def Date_shift [of _ _ _ _ _ _ _ loc] split: sum.splits prod.splits)

lemma time_Parse_2099: "time_Parse ''2099-01-01 00:00:00'' = Inr 4070908800000000000"
  by code_simp

text \<open>The steps of a successful fetch from the first endpoint of the example, for any date limit and clock.\<close>

lemma success_steps_at:
  assumes "w = example_world\<lparr>decodeResponse := \<lambda>body. Inr (response_with s), now := clock\<rparr>"
    and "s \<noteq> []" and "time_Parse s = Inr t"
  shows "http_NewRequest w ''POST'' (URL endpointA) = Inr \<lparr>Method = ''POST'', ReqURL = URL endpointA\<rparr>"
  "http_Do w \<lparr>Method = ''POST'', ReqURL = URL endpointA\<rparr> initial_state
     = (Inr ''status: 200, data: ...'', initial_state\<lparr>tick := 1\<rparr>)"
  "decodeResponse w ''status: 200, data: ...'' = Inr (response_with s)"
  "DateLimit (Data (response_with s)) \<noteq> []"
  "time_Parse (DateLimit (Data (response_with s))) = Inr t"
  using assms(2,3)
  by (simp_all add: assms(1) example_world_def http_NewRequest_def http_Do_def initial_state_def
        response_with_def)

lemma time_Parse_9999: "time_Parse ''9999-12-31 23:59:59'' = Inr 253402300799000000000"
  by code_simp

lemma time_Parse_0001: "time_Parse ''0001-01-01 00:00:00'' = Inr (- 62135596800000000000)"
  by code_simp

subsection \<open>The difference of two instants\<close>

lemma Sub_exact:
  "minDuration \<le> t - u \<Longrightarrow> t - u \<le> maxDuration \<Longrightarrow> Sub t u = t - u"
  by (simp add: Sub_def)

lemma Sub_max: "maxDuration < t - u \<Longrightarrow> Sub t u = maxDuration"
  by (simp add: Sub_def Let_def minDuration_def maxDuration_def)

lemma Sub_min: "t - u < minDuration \<Longrightarrow> Sub t u = minDuration"
  by (simp add: Sub_def Let_def minDuration_def maxDuration_def)

lemma published_at_max: "round_go (fdiv (Hours maxDuration) 24) 2 = fl64 (10675199 / 100)"
  by code_simp

lemma published_at_min: "round_go (fdiv (Hours minDuration) 24) 2 = - fl64 (10675199 / 100)"
  by code_simp

subsection \<open>The distance of the published value from the exact days\<close>

lemma rhe_error: "\<bar>rat_of_int (round_half_even x) - x\<bar> \<le> 1 / 2"
proof -
  define f where "f = \<lfloor>x\<rfloor>"
  define r where "r = x - of_int f"
  have r: "0 \<le> r" "r < 1" unfolding r_def f_def by linarith+
  have x: "x = of_int f + r" by (simp add: r_def)
  have v: "round_half_even x = (if r < 1 / 2 then f else if 1 / 2 < r then f + 1 else if even f then f else f + 1)"
    by (simp add: round_half_even_def Let_def f_def r_def)
  have d: "rat_of_int (round_half_even x) - x = of_int (round_half_even x) - of_int f - r"
    by (simp add: r_def)
  consider "r < 1 / 2" | "1 / 2 < r" | "r = 1 / 2" by linarith
  then show ?thesis
  proof cases
    case 1
    then have "round_half_even x = f" by (simp add: v)
    then show ?thesis unfolding d using 1 r by simp
  next
    case 2
    then have "round_half_even x = f + 1" by (simp add: v)
    then show ?thesis unfolding d using 2 r by simp
  next
    case 3
    then have "round_half_even x = f \<or> round_half_even x = f + 1" by (simp add: v)
    then show ?thesis unfolding d using 3 by auto
  qed
qed

lemma fl64_error:
  assumes "\<bar>x\<bar> \<le> 2 ^ k"
  shows "\<bar>fl64 x - x\<bar> \<le> 2 ^ k / 2 ^ 53"
proof (cases "x = 0")
  case True
  then show ?thesis by (simp add: fl64_def)
next
  case False
  then have a0: "0 < \<bar>x\<bar>" by simp
  define e where "e = max (ilog2 \<bar>x\<bar> - 52) (- 1074)"
  have f: "fl64 x = of_int (round_half_even (x / 2 powi e)) * 2 powi e"
    using False by (simp add: fl64_def Let_def e_def)
  have p: "(0::rat) < 2 powi e" by simp
  have "2 powi ilog2 \<bar>x\<bar> \<le> \<bar>x\<bar>" using ilog2_bounds [OF a0] by simp
  moreover have "\<bar>x\<bar> < 2 powi (int k + 1)"
  proof -
    have "(2::rat) ^ k < 2 ^ (k + 1)" by simp
    also have "\<dots> = 2 powi (int (k + 1))" by (simp only: power_int_of_nat)
    also have "int (k + 1) = int k + 1" by simp
    finally show ?thesis using assms by linarith
  qed
  ultimately have "ilog2 \<bar>x\<bar> < int k + 1" by (rule pow2_exp_less)
  then have ek: "e \<le> int k - 52" by (simp add: e_def)
  have "fl64 x - x = (of_int (round_half_even (x / 2 powi e)) - x / 2 powi e) * 2 powi e"
    unfolding f using p by (simp add: algebra_simps)
  then have "\<bar>fl64 x - x\<bar> = \<bar>of_int (round_half_even (x / 2 powi e)) - x / 2 powi e\<bar> * 2 powi e"
    using p by (simp add: abs_mult)
  also have "\<dots> \<le> 1 / 2 * 2 powi e"
    using rhe_error [of "x / 2 powi e"] p by (intro mult_right_mono) simp_all
  also have "\<dots> = 2 powi (e - 1)" by (simp add: power_int_diff)
  also have "\<dots> \<le> 2 powi (int k - 53)" using ek by (intro power_int_increasing) simp_all
  also have "\<dots> = 2 ^ k / 2 ^ 53" using pow2_diff_nat [of k 53] by simp
  finally show ?thesis .
qed

lemma go_quot_Hour_bound:
  assumes "minDuration \<le> d" "d \<le> maxDuration"
  shows "\<bar>go_quot d Hour\<bar> \<le> 2562047"
proof (cases "0 \<le> d")
  case True
  have "d div Hour \<le> maxDuration div Hour" using assms(2) by (intro zdiv_mono1) (simp_all add: Hour_eq)
  also have "\<dots> = 2562047" by (simp add: maxDuration_def Hour_eq)
  finally show ?thesis using True go_quot_Hour_sign(1) [OF True] by (simp add: go_quot_Hour)
next
  case False
  have "(- d) div Hour \<le> (- minDuration) div Hour" using assms(1) by (intro zdiv_mono1) (simp_all add: Hour_eq)
  also have "\<dots> = 2562047" by (simp add: minDuration_def Hour_eq)
  finally have "(- d) div Hour \<le> 2562047" .
  moreover have "0 \<le> (- d) div Hour" using False by (simp add: pos_imp_zdiv_nonneg_iff Hour_eq)
  ultimately show ?thesis using False by (simp add: go_quot_Hour)
qed

lemma published_error:
  assumes "minDuration \<le> d" "d \<le> maxDuration"
  shows "\<bar>round_go (fdiv (Hours d) 24) 2 - of_int d / 3600000000000 / 24\<bar> \<le> 1 / 200 + 1 / 2 ^ 29"
proof -
  define h n where "h = go_quot d Hour" and "n = go_rem d Hour"
  define q :: rat where "q = of_int n / 3600000000000"
  define g where "g = fl64 q"
  define s where "s = of_int h + g"
  define Hs where "Hs = fl64 s"
  define D where "D = fl64 (Hs / 24)"
  define y where "y = fl64 (D * 100)"
  define v where "v = fl64 (math_Round y / 100)"
  have sub: "Sub d 0 = d" using assms by (simp add: Sub_def)
  have Hd: "Hours d = Hs"
    using Hours_eq [OF assms] by (simp add: Hs_def s_def g_def q_def h_def n_def)
  have vd: "round_go (fdiv (Hours d) 24) 2 = v"
    by (simp add: round_go_2 fdiv_def Hd v_def y_def D_def)
  from float_values_bounded [of d 0]
  have b: "\<bar>Hs\<bar> \<le> 2562048" "\<bar>D\<bar> \<le> 106752" "\<bar>y\<bar> \<le> 10675200"
    unfolding sub Hd by (simp_all add: fdiv_def D_def y_def)
  have an: "\<bar>n\<bar> \<le> Hour"
    using go_rem_Hour_bounds [of d] by (cases "0 \<le> d") (auto simp: n_def)
  have T: "of_int d / 3600000000000 = of_int h + q"
  proof -
    have "d = h * 3600000000000 + n"
      using go_quot_rem_Hour [of d] by (simp add: h_def n_def Hour_eq)
    then have "rat_of_int d = of_int h * 3600000000000 + of_int n" by simp
    then show ?thesis by (simp add: q_def field_simps)
  qed
  have aq: "\<bar>q\<bar> \<le> 2 ^ 0"
  proof -
    have "\<bar>rat_of_int n\<bar> \<le> 3600000000000" using an by (simp add: Hour_eq)
    then show ?thesis by (simp add: q_def)
  qed
  have e1: "\<bar>g - q\<bar> \<le> 2 ^ 0 / 2 ^ 53" unfolding g_def using aq by (rule fl64_error)
  have ag: "\<bar>g\<bar> \<le> 1"
    using frac_hour_bounds(1,2) [OF an] by (simp add: g_def q_def abs_le_iff)
  have ah: "\<bar>rat_of_int h\<bar> \<le> 2562047"
  proof -
    have "\<bar>h\<bar> \<le> 2562047" unfolding h_def using assms by (rule go_quot_Hour_bound)
    then have "rat_of_int \<bar>h\<bar> \<le> rat_of_int 2562047" by (simp only: of_int_le_iff)
    then show ?thesis by simp
  qed
  have "\<bar>s\<bar> \<le> 2 ^ 22" unfolding s_def using ag ah by simp
  then have e2: "\<bar>Hs - s\<bar> \<le> 2 ^ 22 / 2 ^ 53" unfolding Hs_def by (rule fl64_error)
  have "\<bar>Hs / 24\<bar> \<le> 2 ^ 17" using b(1) by simp
  then have e3: "\<bar>D - Hs / 24\<bar> \<le> 2 ^ 17 / 2 ^ 53" unfolding D_def by (rule fl64_error)
  have "\<bar>D * 100\<bar> \<le> 2 ^ 24" using b(2) by simp
  then have e4: "\<bar>y - D * 100\<bar> \<le> 2 ^ 24 / 2 ^ 53" unfolding y_def by (rule fl64_error)
  from math_Round_half_away [of y] obtain k :: int where
    k: "math_Round y = of_int k" "\<bar>of_int k - y\<bar> \<le> 1 / 2" by blast
  define kr where "kr = rat_of_int k"
  have e5: "\<bar>kr - y\<bar> \<le> 1 / 2" using k(2) by (simp add: kr_def)
  have "\<bar>kr\<bar> \<le> 10675201" using e5 b(3) by linarith
  then have "\<bar>kr / 100\<bar> \<le> 2 ^ 17" by simp
  then have e6: "\<bar>v - kr / 100\<bar> \<le> 2 ^ 17 / 2 ^ 53"
    unfolding v_def k(1) kr_def [symmetric] by (rule fl64_error)
  have "\<bar>v - (rat_of_int h + q) / 24\<bar> \<le> 1 / 200 + 1 / 2 ^ 29"
  proof -
    define a1 a2 a3 a4 a5 a6 where "a1 = g - q" and "a2 = Hs - (rat_of_int h + g)"
      and "a3 = D - Hs / 24" and "a4 = y - D * 100" and "a5 = kr - y" and "a6 = v - kr / 100"
    have c: "(2::rat) ^ 0 / 2 ^ 53 = 1 / 9007199254740992" "(2::rat) ^ 22 / 2 ^ 53 = 1 / 2147483648"
      "(2::rat) ^ 17 / 2 ^ 53 = 1 / 68719476736" "(2::rat) ^ 24 / 2 ^ 53 = 1 / 536870912"
      "(1::rat) / 2 ^ 29 = 1 / 536870912"
      by simp_all
    have E: "\<bar>a1\<bar> \<le> 1 / 9007199254740992" "\<bar>a2\<bar> \<le> 1 / 2147483648" "\<bar>a3\<bar> \<le> 1 / 68719476736"
      "\<bar>a4\<bar> \<le> 1 / 536870912" "\<bar>a5\<bar> \<le> 1 / 2" "\<bar>a6\<bar> \<le> 1 / 68719476736"
      using e1 e2 e3 e4 e5 e6 unfolding c s_def a1_def a2_def a3_def a4_def a5_def a6_def
      by simp_all
    have "v - (rat_of_int h + q) / 24 = a6 + a5 / 100 + a4 / 100 + a3 + a2 / 24 + a1 / 24"
      unfolding a1_def a2_def a3_def a4_def a5_def a6_def by (simp add: field_simps)
    then show ?thesis unfolding c using E by linarith
  qed
  then show ?thesis unfolding vd T .
qed

lemma published_days_accuracy:
  assumes "minDuration \<le> dateLimit - currentTime" "dateLimit - currentTime \<le> maxDuration"
  shows "\<bar>published_days dateLimit currentTime - exact_days dateLimit currentTime\<bar> \<le> 1 / 200 + 1 / 2 ^ 29"
  using published_error [OF assms] by (simp add: Sub_exact [OF assms] exact_days_def)

subsection \<open>The outcome of a poll\<close>

lemma fetchData_outcome:
  "metric (fetchData w u st) = (metric st)(labels u \<mapsto> endpoint_outcome w u (tick st))"
  by (simp add: fetchData_def endpoint_outcome_def http_NewRequest_def http_Do_def time_Now_def
        split: option.splits sum.splits)

lemma fold_fetchData_outcome:
  assumes "distinct (map labels us)" "i < length us"
  shows "metric (fold (fetchData w) us st) (labels (us ! i))
       = Some (endpoint_outcome w (us ! i) (tick (fold (fetchData w) (take i us) st)))"
  using fold_fetchData_own [OF assms, of w st] by (simp add: fetchData_outcome)

lemma outcome_A: "endpoint_outcome example_world endpointA t = fl64 (2635948 / 100)"
proof -
  have "published_days 4070908800000000000 1793450096000000000 = fl64 (2635948 / 100)"
    by code_simp
  then show ?thesis
    by (simp add: endpoint_outcome_def example_world_def response_with_def time_Parse_2099)
qed

lemma outcome_B: "endpoint_outcome example_world endpointB t = - 1"
  by (simp add: endpoint_outcome_def example_world_def endpointA_def endpointB_def)

subsection \<open>The loop of \<open>init\<close>\<close>





section \<open>The claims\<close>

subsection \<open>The value published after a successful fetch\<close>

text \<open>
  Claim C1, as stated, fails. The claim equates the published value with the days between
  the two instants, a real number, rounded to two decimals under one policy for a tie. The
  source takes the difference with \<open>Time.Sub\<close>, whose result is a \<open>Duration\<close> of 64
  bits of nanoseconds and stops at the largest \<open>Duration\<close> when the instants are further
  apart (about 292 years): for the date limit \<open>9999-12-31 23:59:59\<close> it publishes
  \<open>106751.99\<close>, where the days between the instants round to \<open>2912139.48\<close>. And the
  tie is decided on the \<open>float64\<close> product of the days and 100, not on the days: 3024
  seconds are exactly 0.035 days, a halfway point that both policies take to \<open>0.04\<close>,
  and the source publishes \<open>0.03\<close>; 432 seconds are exactly 0.005 days, which the source
  publishes as \<open>0.01\<close> where rounding half to even gives 0.
\<close>

theorem published_value_not_exact_round:
  "metric (fetchData far_future_world endpointA initial_state) (labels endpointA)
     = Some (fl64 (10675199 / 100))
   \<and> time_Parse ''9999-12-31 23:59:59'' = Inr 253402300799000000000
   \<and> exact_days 253402300799000000000 (now far_future_world 1) = 27956538967 / 9600
   \<and> round2_half_away (27956538967 / 9600) = 291213948 / 100
   \<and> round2_half_even (27956538967 / 9600) = 291213948 / 100
   \<and> fl64 (10675199 / 100) \<noteq> fl64 (291213948 / 100)
   \<and> metric (fetchData ahead_3024_world endpointA initial_state) (labels endpointA)
     = Some (fl64 (3 / 100))
   \<and> exact_days 4070908800000000000 (now ahead_3024_world 1) = 35 / 1000
   \<and> round2_half_away (35 / 1000) = 4 / 100
   \<and> round2_half_even (35 / 1000) = 4 / 100
   \<and> fl64 (3 / 100) \<noteq> fl64 (4 / 100)
   \<and> metric (fetchData ahead_432_world endpointA initial_state) (labels endpointA)
     = Some (fl64 (1 / 100))
   \<and> exact_days 4070908800000000000 (now ahead_432_world 1) = 5 / 1000
   \<and> round2_half_even (5 / 1000) = 0
   \<and> fl64 (1 / 100) \<noteq> fl64 0"
  by code_simp

text \<open>
  Claim C1, amended. When the request is built and answered, the body decodes, and the date
  limit is not empty and parses, \<open>fetchData\<close> stores under the labels of its endpoint the
  value \<open>round(dateLimit.Sub(now).Hours() / 24, 2)\<close>, computed in \<open>float64\<close>, and
  changes no other entry. That value is the \<open>float64\<close> nearest to \<open>k / 100\<close>, where
  the integer \<open>k\<close> is the \<open>float64\<close> product of the days and 100 rounded to the
  nearest integer, a tie of that product going away from zero. A value below zero is
  published only for a date limit that lies before the reading of the clock. As long as
  the difference of the two instants fits a \<open>Duration\<close>, \<open>Sub\<close> is that difference
  and the published value lies within \<open>0.005 + 2\<^sup>-\<^sup>2\<^sup>9\<close> of the exact number of days;
  a date limit further ahead is published as \<open>106751.99\<close>, one further back as
  \<open>-106751.99\<close>.
\<close>

theorem fetchData_publishes_rounded_days:
  assumes "http_NewRequest w ''POST'' (URL u) = Inr req"
    and "http_Do w req st = (Inr body, st1)"
    and "decodeResponse w body = Inr r"
    and "DateLimit (Data r) \<noteq> []"
    and "time_Parse (DateLimit (Data r)) = Inr dateLimit"
  shows "metric (fetchData w u st)
           = (metric st)(labels u \<mapsto> published_days dateLimit (now w (tick st1)))
       \<and> (\<exists>k::int. published_days dateLimit (now w (tick st1)) = fl64 (of_int k / 100)
             \<and> \<bar>of_int k - fl64 (fdiv (Hours (Sub dateLimit (now w (tick st1)))) 24 * 100)\<bar> \<le> 1 / 2
             \<and> (\<bar>of_int k - fl64 (fdiv (Hours (Sub dateLimit (now w (tick st1)))) 24 * 100)\<bar> = 1 / 2
                  \<longrightarrow> \<bar>rat_of_int k\<bar>
                        = \<bar>fl64 (fdiv (Hours (Sub dateLimit (now w (tick st1)))) 24 * 100)\<bar> + 1 / 2))
       \<and> (published_days dateLimit (now w (tick st1)) < 0 \<longrightarrow> dateLimit < now w (tick st1))
       \<and> (minDuration \<le> dateLimit - now w (tick st1) \<and> dateLimit - now w (tick st1) \<le> maxDuration
            \<longrightarrow> Sub dateLimit (now w (tick st1)) = dateLimit - now w (tick st1)
               \<and> \<bar>published_days dateLimit (now w (tick st1)) - exact_days dateLimit (now w (tick st1))\<bar>
                    \<le> 1 / 200 + 1 / 2 ^ 29)
       \<and> (maxDuration < dateLimit - now w (tick st1)
            \<longrightarrow> published_days dateLimit (now w (tick st1)) = fl64 (10675199 / 100))
       \<and> (dateLimit - now w (tick st1) < minDuration
            \<longrightarrow> published_days dateLimit (now w (tick st1)) = - fl64 (10675199 / 100))"
proof (intro conjI impI)
  show "metric (fetchData w u st)
           = (metric st)(labels u \<mapsto> published_days dateLimit (now w (tick st1)))"
    using assms by (rule fetchData_success)
next
  let ?y = "fl64 (fdiv (Hours (Sub dateLimit (now w (tick st1)))) 24 * 100)"
  from math_Round_half_away [of ?y] obtain k :: int where
    k: "math_Round ?y = of_int k" "\<bar>of_int k - ?y\<bar> \<le> 1 / 2"
       "\<bar>of_int k - ?y\<bar> = 1 / 2 \<longrightarrow> \<bar>rat_of_int k\<bar> = \<bar>?y\<bar> + 1 / 2" by blast
  have "published_days dateLimit (now w (tick st1)) = fl64 (of_int k / 100)"
    by (simp add: round_go_2 k(1))
  with k(2,3) show "\<exists>k::int. published_days dateLimit (now w (tick st1)) = fl64 (of_int k / 100)
             \<and> \<bar>of_int k - ?y\<bar> \<le> 1 / 2
             \<and> (\<bar>of_int k - ?y\<bar> = 1 / 2 \<longrightarrow> \<bar>rat_of_int k\<bar> = \<bar>?y\<bar> + 1 / 2)" by blast
next
  assume "published_days dateLimit (now w (tick st1)) < 0"
  with published_days_nonneg [of "now w (tick st1)" dateLimit]
  show "dateLimit < now w (tick st1)" by linarith
next
  assume "minDuration \<le> dateLimit - now w (tick st1) \<and> dateLimit - now w (tick st1) \<le> maxDuration"
  then show "Sub dateLimit (now w (tick st1)) = dateLimit - now w (tick st1)"
    by (simp add: Sub_def)
next
  assume "minDuration \<le> dateLimit - now w (tick st1) \<and> dateLimit - now w (tick st1) \<le> maxDuration"
  then show "\<bar>published_days dateLimit (now w (tick st1)) - exact_days dateLimit (now w (tick st1))\<bar>
                    \<le> 1 / 200 + 1 / 2 ^ 29"
    by (intro published_days_accuracy) simp_all
next
  assume "maxDuration < dateLimit - now w (tick st1)"
  then show "published_days dateLimit (now w (tick st1)) = fl64 (10675199 / 100)"
    by (simp only: Sub_max published_at_max)
next
  assume "dateLimit - now w (tick st1) < minDuration"
  then show "published_days dateLimit (now w (tick st1)) = - fl64 (10675199 / 100)"
    by (simp only: Sub_min published_at_min)
qed

theorem fetchData_publishes_rounded_days_witness:
  "metric (fetchData example_world endpointA initial_state) (labels endpointA)
     = Some (fl64 (2635948 / 100))
   \<and> Sub 4070908800000000000 1793450096000000000 = 4070908800000000000 - 1793450096000000000
   \<and> \<bar>fl64 (2635948 / 100) - exact_days 4070908800000000000 1793450096000000000\<bar>
        \<le> 1 / 200 + 1 / 2 ^ 29
   \<and> metric (fetchData tie_world endpointA initial_state) (labels endpointA)
     = Some (fl64 (- 1 / 100))
   \<and> fl64 (fdiv (Hours (Sub 4070908800000000000 4070909232000000000)) 24 * 100) = - 1 / 2
   \<and> fl64 (- 1 / 100) < 0 \<and> (4070908800000000000 :: int) < 4070909232000000000
   \<and> metric (fetchData far_future_world endpointA initial_state) (labels endpointA)
     = Some (fl64 (10675199 / 100))
   \<and> maxDuration < 253402300799000000000 - 1793450096000000000
   \<and> metric (fetchData far_past_world endpointA initial_state) (labels endpointA)
     = Some (- fl64 (10675199 / 100))
   \<and> - 62135596800000000000 - 1793450096000000000 < minDuration"
proof -
  let ?c = "\<lambda>t::nat. 1793450096 * 1000000000 :: int"
  have e: "example_world = example_world\<lparr>decodeResponse := \<lambda>body. Inr (response_with ''2099-01-01 00:00:00''),
      now := ?c\<rparr>"
    by (simp add: example_world_def)
  have t: "tie_world = example_world\<lparr>decodeResponse := \<lambda>body. Inr (response_with ''2099-01-01 00:00:00''),
      now := \<lambda>t. 4070909232 * 1000000000\<rparr>"
    by (simp add: tie_world_def example_world_def)
  have f: "far_future_world = example_world\<lparr>decodeResponse := \<lambda>body. Inr (response_with ''9999-12-31 23:59:59''),
      now := ?c\<rparr>"
    by (simp add: far_future_world_def example_world_def)
  have p: "far_past_world = example_world\<lparr>decodeResponse := \<lambda>body. Inr (response_with ''0001-01-01 00:00:00''),
      now := ?c\<rparr>"
    by (simp add: far_past_world_def example_world_def)
  have n: "now example_world (tick (initial_state\<lparr>tick := 1\<rparr>)) = 1793450096000000000"
    "now tie_world (tick (initial_state\<lparr>tick := 1\<rparr>)) = 4070909232000000000"
    "now far_future_world (tick (initial_state\<lparr>tick := 1\<rparr>)) = 1793450096000000000"
    "now far_past_world (tick (initial_state\<lparr>tick := 1\<rparr>)) = 1793450096000000000"
    by (simp_all add: example_world_def tie_world_def far_future_world_def far_past_world_def)
  have v: "published_days 4070908800000000000 1793450096000000000 = fl64 (2635948 / 100)"
    by code_simp
  have r: "minDuration \<le> 4070908800000000000 - 1793450096000000000
      \<and> 4070908800000000000 - 1793450096000000000 \<le> maxDuration"
    by (simp add: minDuration_def maxDuration_def)
  have v': "published_days 4070908800000000000 4070909232000000000 = fl64 (- 1 / 100)"
    by code_simp
  have y': "fl64 (fdiv (Hours (Sub 4070908800000000000 4070909232000000000)) 24 * 100) = - 1 / 2"
    by code_simp
  have hi: "maxDuration < 253402300799000000000 - 1793450096000000000"
    by (simp add: maxDuration_def)
  have lo: "- 62135596800000000000 - 1793450096000000000 < minDuration"
    by (simp add: minDuration_def)
  from fetchData_publishes_rounded_days [OF success_steps_at [OF e _ time_Parse_2099]] n(1) v r
  have 1: "metric (fetchData example_world endpointA initial_state) (labels endpointA)
     = Some (fl64 (2635948 / 100))"
    and 2: "Sub 4070908800000000000 1793450096000000000 = 4070908800000000000 - 1793450096000000000"
    and 3: "\<bar>fl64 (2635948 / 100) - exact_days 4070908800000000000 1793450096000000000\<bar>
        \<le> 1 / 200 + 1 / 2 ^ 29"
    by simp_all
  from fetchData_publishes_rounded_days [OF success_steps_at [OF t _ time_Parse_2099]] n(2) v'
    fl64_hundredth_neg
  have 4: "metric (fetchData tie_world endpointA initial_state) (labels endpointA)
     = Some (fl64 (- 1 / 100))"
    and 5: "(4070908800000000000 :: int) < 4070909232000000000"
    by simp_all
  from fetchData_publishes_rounded_days [OF success_steps_at [OF f _ time_Parse_9999]] n(3) hi
  have 6: "metric (fetchData far_future_world endpointA initial_state) (labels endpointA)
     = Some (fl64 (10675199 / 100))"
    by simp
  from fetchData_publishes_rounded_days [OF success_steps_at [OF p _ time_Parse_0001]] n(4) lo
  have 7: "metric (fetchData far_past_world endpointA initial_state) (labels endpointA)
     = Some (- fl64 (10675199 / 100))"
    by simp
  from 1 2 3 4 5 6 7 y' hi lo fl64_hundredth_neg show ?thesis by blast
qed

subsection \<open>Date limits in the past\<close>

text \<open>
  Claim C8, as stated, fails. The value for a date limit in the past is rounded like any
  other, so it need not be negative: one second after the date limit the product of days
  and 100 is about \<open>-0.001\<close>, which \<open>math.Round\<close> takes to zero (Go gives the
  \<open>float64\<close> negative zero, which compares equal to 0). And it can be the very number
  that marks a failure: one day after the date limit the value is \<open>-1\<close>.
\<close>

theorem expired_value_not_negative:
  "time_Parse ''2099-01-01 00:00:00'' = Inr (4070908800 * 1000000000)
   \<and> now just_expired_world 1 = 4070908801 * 1000000000
   \<and> metric (fetchData just_expired_world endpointA initial_state) (labels endpointA) = Some 0
   \<and> now day_expired_world 1 = 4070995200 * 1000000000
   \<and> metric (fetchData day_expired_world endpointA initial_state) (labels endpointA) = Some (- 1)"
  by code_simp

text \<open>
  Claim C8, amended. For a date limit before the reading of the clock, the value stored is
  \<open>round(dateLimit.Sub(now).Hours() / 24, 2)\<close> like for any other date limit. It is never
  positive, and it is negative exactly when the date limit lies at least 432 seconds
  (0.005 days) back; a more recent date limit is published as zero. As long as the
  difference of the two instants fits a \<open>Duration\<close>, the value lies within
  \<open>0.005 + 2\<^sup>-\<^sup>2\<^sup>9\<close> of the exact number of days. \<open>Time.Sub\<close> stops at the smallest
  \<open>Duration\<close>: a date limit more than \<open>2\<^sup>6\<^sup>3\<close> nanoseconds (about 292 years) back is
  published as \<open>-106751.99\<close>, however far back it lies.
\<close>

theorem expired_value:
  assumes "http_NewRequest w ''POST'' (URL u) = Inr req"
    and "http_Do w req st = (Inr body, st1)"
    and "decodeResponse w body = Inr r"
    and "DateLimit (Data r) \<noteq> []"
    and "time_Parse (DateLimit (Data r)) = Inr dateLimit"
    and "dateLimit < now w (tick st1)"
  shows "metric (fetchData w u st)
           = (metric st)(labels u \<mapsto> published_days dateLimit (now w (tick st1)))
       \<and> published_days dateLimit (now w (tick st1)) \<le> 0
       \<and> (published_days dateLimit (now w (tick st1)) < 0
            \<longleftrightarrow> dateLimit + 432 * Second \<le> now w (tick st1))
       \<and> (minDuration \<le> dateLimit - now w (tick st1)
            \<longrightarrow> Sub dateLimit (now w (tick st1)) = dateLimit - now w (tick st1)
               \<and> \<bar>published_days dateLimit (now w (tick st1)) - exact_days dateLimit (now w (tick st1))\<bar>
                    \<le> 1 / 200 + 1 / 2 ^ 29)
       \<and> (dateLimit - now w (tick st1) < minDuration
            \<longrightarrow> published_days dateLimit (now w (tick st1)) = - fl64 (10675199 / 100))"
proof -
  have "metric (fetchData w u st)
           = (metric st)(labels u \<mapsto> published_days dateLimit (now w (tick st1)))"
    using assms(1-5) by (rule fetchData_success)
  moreover have "published_days dateLimit (now w (tick st1)) \<le> 0"
    using assms(6) by (rule published_days_nonpos)
  moreover have "published_days dateLimit (now w (tick st1)) < 0
            \<longleftrightarrow> dateLimit + 432 * Second \<le> now w (tick st1)"
    using published_days_far [of dateLimit "now w (tick st1)"]
      published_days_near [of "now w (tick st1)" dateLimit] by linarith
  moreover have "minDuration \<le> dateLimit - now w (tick st1)
            \<longrightarrow> Sub dateLimit (now w (tick st1)) = dateLimit - now w (tick st1)
               \<and> \<bar>published_days dateLimit (now w (tick st1)) - exact_days dateLimit (now w (tick st1))\<bar>
                    \<le> 1 / 200 + 1 / 2 ^ 29"
  proof
    assume a: "minDuration \<le> dateLimit - now w (tick st1)"
    have b: "dateLimit - now w (tick st1) \<le> maxDuration"
      using assms(6) by (simp add: maxDuration_def)
    from Sub_exact [OF a b] published_days_accuracy [OF a b]
    show "Sub dateLimit (now w (tick st1)) = dateLimit - now w (tick st1)
               \<and> \<bar>published_days dateLimit (now w (tick st1)) - exact_days dateLimit (now w (tick st1))\<bar>
                    \<le> 1 / 200 + 1 / 2 ^ 29" by blast
  qed
  moreover have "dateLimit - now w (tick st1) < minDuration
            \<longrightarrow> published_days dateLimit (now w (tick st1)) = - fl64 (10675199 / 100)"
  proof
    assume "dateLimit - now w (tick st1) < minDuration"
    then have "Sub dateLimit (now w (tick st1)) = minDuration" by (rule Sub_min)
    then show "published_days dateLimit (now w (tick st1)) = - fl64 (10675199 / 100)"
      by (simp only: published_at_min)
  qed
  ultimately show ?thesis by blast
qed

theorem expired_value_witness:
  "metric (fetchData day_expired_world endpointA initial_state) (labels endpointA) = Some (- 1)
   \<and> 4070908800000000000 + 432 * Second \<le> now day_expired_world 1
   \<and> 4070908800000000000 < now day_expired_world 1
   \<and> minDuration \<le> 4070908800000000000 - now day_expired_world 1
   \<and> \<bar>- 1 - exact_days 4070908800000000000 (now day_expired_world 1)\<bar> \<le> 1 / 200 + 1 / 2 ^ 29
   \<and> metric (fetchData far_past_world endpointA initial_state) (labels endpointA)
       = Some (- fl64 (10675199 / 100))
   \<and> - 62135596800000000000 < now far_past_world 1
   \<and> - 62135596800000000000 - now far_past_world 1 < minDuration"
proof -
  have d: "day_expired_world = example_world\<lparr>decodeResponse := \<lambda>body. Inr (response_with ''2099-01-01 00:00:00''),
      now := \<lambda>t. 4070995200 * 1000000000\<rparr>"
    by (simp add: day_expired_world_def example_world_def)
  have p: "far_past_world = example_world\<lparr>decodeResponse := \<lambda>body. Inr (response_with ''0001-01-01 00:00:00''),
      now := \<lambda>t. 1793450096 * 1000000000\<rparr>"
    by (simp add: far_past_world_def example_world_def)
  have n: "now day_expired_world (tick (initial_state\<lparr>tick := 1\<rparr>)) = 4070995200000000000"
    "now far_past_world (tick (initial_state\<lparr>tick := 1\<rparr>)) = 1793450096000000000"
    "now day_expired_world t = 4070995200000000000"
    "now far_past_world t = 1793450096000000000" for t
    by (simp_all add: day_expired_world_def far_past_world_def example_world_def)
  have l: "4070908800000000000 < now day_expired_world (tick (initial_state\<lparr>tick := 1\<rparr>))"
    "- 62135596800000000000 < now far_past_world (tick (initial_state\<lparr>tick := 1\<rparr>))"
    by (simp_all add: day_expired_world_def far_past_world_def example_world_def)
  have v: "published_days 4070908800000000000 4070995200000000000 = - 1"
    by code_simp
  have a: "minDuration \<le> 4070908800000000000 - 4070995200000000000"
    by (simp add: minDuration_def)
  have b: "- 62135596800000000000 - 1793450096000000000 < minDuration"
    by (simp add: minDuration_def)
  from expired_value [OF success_steps_at [OF d _ time_Parse_2099] l(1)] n(1) v a
  have 1: "metric (fetchData day_expired_world endpointA initial_state) (labels endpointA) = Some (- 1)"
    and 2: "\<bar>- 1 - exact_days 4070908800000000000 4070995200000000000\<bar> \<le> 1 / 200 + 1 / 2 ^ 29"
    by simp_all
  from expired_value [OF success_steps_at [OF p _ time_Parse_0001] l(2)] n(2) b
  have 3: "metric (fetchData far_past_world endpointA initial_state) (labels endpointA)
       = Some (- fl64 (10675199 / 100))"
    by simp
  from 1 2 3 a b show ?thesis by (simp add: n Second_def)
qed

subsection \<open>The time zone of the date limit\<close>

text \<open>
  Claim C5, as stated, fails. The source calls \<open>time.Parse\<close>, which reads a time without
  zone as UTC, not \<open>time.ParseInLocation\<close> with \<open>time.Local\<close>. In a process
  running eight hours east of UTC the local reading of \<open>2099-01-01 00:00:00\<close> is eight
  hours earlier than the instant the source computes, and the published value differs:
  26359.48 days instead of 26359.14.
\<close>

theorem dateLimit_not_local_time:
  "local_time_reading east_world ''2099-01-01 00:00:00'' = Inr (4070880000 * 1000000000)
   \<and> time_Parse ''2099-01-01 00:00:00'' = Inr (4070908800 * 1000000000)
   \<and> metric (fetchData east_world endpointA initial_state) (labels endpointA)
       = Some (published_days (4070908800 * 1000000000) (now east_world 1))
   \<and> published_days (4070908800 * 1000000000) (now east_world 1) = fl64 (2635948 / 100)
   \<and> published_days (4070880000 * 1000000000) (now east_world 1) = fl64 (2635914 / 100)
   \<and> fl64 (2635948 / 100) \<noteq> fl64 (2635914 / 100)"
  by code_simp

text \<open>
  Claim C5, amended. The date limit is parsed against the fixed layout, which has no time
  zone, and the result is taken in UTC: the time zone of the process has no influence on
  what \<open>fetchData\<close> does, and the instant computed by the source is the local reading
  moved by the offset of the local zone. Both readings accept the same texts. A text
  \<open>YYYY-MM-DD HH:MM:SS\<close> of a valid date and time of day parses to the instant at which
  a clock in UTC shows that date and time.
\<close>

theorem dateLimit_read_as_UTC:
  "fetchData (w\<lparr>localOffset := loc\<rparr>) u st = fetchData w u st
   \<and> (time_Parse s = Inr t) = (local_time_reading w s = Inr (t - localOffset w * 1000000000))
   \<and> (\<forall>e. (time_Parse s = Inl e) = (local_time_reading w s = Inl e))
   \<and> (0 \<le> year \<and> year < 10000 \<and> 1 \<le> month \<and> month \<le> 12
        \<and> 1 \<le> day \<and> day \<le> daysIn month year
        \<and> 0 \<le> hour \<and> hour < 24 \<and> 0 \<le> minute \<and> minute < 60 \<and> 0 \<le> sec \<and> sec < 60
      \<longrightarrow> time_Parse (formatDateTime year month day hour minute sec)
            = Inr (Date year month day hour minute sec 0 UTC))"
proof -
  have "fetchData (w\<lparr>localOffset := loc\<rparr>) u st = fetchData w u st"
    by (simp add: fetchData_def http_NewRequest_def http_Do_def time_Now_def
           split: sum.splits option.splits)
  moreover have "(time_Parse s = Inr t) = (local_time_reading w s = Inr (t - localOffset w * 1000000000))"
    unfolding time_Parse_def local_time_reading_def time_ParseInLocation_def by (rule parse_shift)
  moreover have "\<forall>e. (time_Parse s = Inl e) = (local_time_reading w s = Inl e)"
    unfolding time_Parse_def local_time_reading_def time_ParseInLocation_def
    by (auto simp: parse_def split: sum.splits prod.splits if_splits)
  moreover have "0 \<le> year \<and> year < 10000 \<and> 1 \<le> month \<and> month \<le> 12
        \<and> 1 \<le> day \<and> day \<le> daysIn month year
        \<and> 0 \<le> hour \<and> hour < 24 \<and> 0 \<le> minute \<and> minute < 60 \<and> 0 \<le> sec \<and> sec < 60
      \<longrightarrow> time_Parse (formatDateTime year month day hour minute sec)
            = Inr (Date year month day hour minute sec 0 UTC)"
    unfolding time_Parse_def by (auto intro: parse_formatDateTime)
  ultimately show ?thesis by blast
qed

theorem dateLimit_read_as_UTC_witness:
  "fetchData east_world endpointA initial_state = fetchData example_world endpointA initial_state
   \<and> time_Parse ''2099-01-01 00:00:00'' = Inr (4070908800 * 1000000000)
   \<and> local_time_reading east_world ''2099-01-01 00:00:00''
       = Inr (4070908800 * 1000000000 - 8 * 3600 * 1000000000)
   \<and> formatDateTime 2024 2 29 23 59 59 = ''2024-02-29 23:59:59''
   \<and> (29::int) \<le> daysIn 2 2024
   \<and> time_Parse ''2024-02-29 23:59:59'' = Inr (1709251199 * 1000000000)"
proof -
  have f: "formatDateTime 2024 2 29 23 59 59 = ''2024-02-29 23:59:59''"
    by code_simp
  have l: "(29::int) \<le> daysIn 2 2024"
    by code_simp
  have d: "Date 2024 2 29 23 59 59 0 UTC = 1709251199 * 1000000000"
    by code_simp
  from dateLimit_read_as_UTC [where year = 2024 and month = 2 and day = 29 and hour = 23
      and minute = 59 and sec = 59] l
  have "time_Parse (formatDateTime 2024 2 29 23 59 59) = Inr (Date 2024 2 29 23 59 59 0 UTC)"
    by simp
  then have r: "time_Parse ''2024-02-29 23:59:59'' = Inr (1709251199 * 1000000000)"
    by (simp only: f d)
  have p: "time_Parse ''2099-01-01 00:00:00'' = Inr 4070908800000000000"
    by (rule time_Parse_2099)
  have o: "localOffset east_world = 8 * 3600"
    by (simp add: east_world_def)
  from dateLimit_read_as_UTC [where w = example_world and loc = "8 * 3600" and u = endpointA
      and st = initial_state]
  have "fetchData east_world endpointA initial_state = fetchData example_world endpointA initial_state"
    by (simp add: east_world_def)
  moreover from dateLimit_read_as_UTC [where w = east_world and s = "''2099-01-01 00:00:00''"
      and t = 4070908800000000000] p o
  have "local_time_reading east_world ''2099-01-01 00:00:00''
       = Inr (4070908800 * 1000000000 - 8 * 3600 * 1000000000)"
    by simp
  ultimately show ?thesis using p f l r by simp
qed

subsection \<open>Failures of one endpoint\<close>

text \<open>
  Claim C2. Once the request has been built, each of the four failures of an invocation
  (the transport fails; the body cannot be decoded; the date limit is empty; the date
  limit cannot be parsed) makes \<open>fetchData\<close> store \<open>-1\<close> under the labels of its
  endpoint and nothing else. \<open>fetchData\<close> returns a state in every case: it has no
  exit and no error result. A cycle whose configuration was read runs \<open>fetchData\<close>
  over the whole list and goes on, whatever the endpoints answered.
\<close>

theorem fetchData_failure_sentinel:
  assumes "http_NewRequest w ''POST'' (URL u) = Inr req"
  shows "(\<forall>err st1. http_Do w req st = (Inl err, st1)
            \<longrightarrow> metric (fetchData w u st) = (metric st)(labels u \<mapsto> - 1))
       \<and> (\<forall>body st1 err. http_Do w req st = (Inr body, st1) \<and> decodeResponse w body = Inl err
            \<longrightarrow> metric (fetchData w u st) = (metric st)(labels u \<mapsto> - 1))
       \<and> (\<forall>body st1 r. http_Do w req st = (Inr body, st1) \<and> decodeResponse w body = Inr r
              \<and> DateLimit (Data r) = []
            \<longrightarrow> metric (fetchData w u st) = (metric st)(labels u \<mapsto> - 1))
       \<and> (\<forall>body st1 r err. http_Do w req st = (Inr body, st1) \<and> decodeResponse w body = Inr r
              \<and> time_Parse (DateLimit (Data r)) = Inl err
            \<longrightarrow> metric (fetchData w u st) = (metric st)(labels u \<mapsto> - 1))
       \<and> (\<forall>cfg st1. readConfig w ''config.json'' st = ((cfg, None), st1)
            \<longrightarrow> cycle w st = Running (time_Sleep (10 * Hour) (fold (fetchData w) (URLs cfg) st1)))"
  using assms by (auto simp: fetchData_def http_Do_def cycle_def)

theorem fetchData_failure_sentinel_witness:
  "metric (fetchData example_world endpointB initial_state) (labels endpointB) = Some (- 1)
   \<and> metric (fetchData (example_world\<lparr>decodeResponse := \<lambda>body. Inl (EnvError ''unexpected EOF'')\<rparr>)
        endpointA initial_state) (labels endpointA) = Some (- 1)
   \<and> metric (fetchData (example_world\<lparr>decodeResponse := \<lambda>body. Inr (response_with [])\<rparr>)
        endpointA initial_state) (labels endpointA) = Some (- 1)
   \<and> metric (fetchData (example_world\<lparr>decodeResponse := \<lambda>body. Inr (response_with ''01/01/2099'')\<rparr>)
        endpointA initial_state) (labels endpointA) = Some (- 1)
   \<and> cycle example_world initial_state
       = Running (time_Sleep (10 * Hour)
           (fold (fetchData example_world) [endpointA, endpointB] (initial_state\<lparr>tick := 1\<rparr>)))"
proof -
  let ?reqA = "\<lparr>Method = ''POST'', ReqURL = URL endpointA\<rparr>"
  let ?reqB = "\<lparr>Method = ''POST'', ReqURL = URL endpointB\<rparr>"
  let ?w2 = "example_world\<lparr>decodeResponse := \<lambda>body. Inl (EnvError ''unexpected EOF'')\<rparr>"
  let ?w3 = "example_world\<lparr>decodeResponse := \<lambda>body. Inr (response_with [])\<rparr>"
  let ?w4 = "example_world\<lparr>decodeResponse := \<lambda>body. Inr (response_with ''01/01/2099'')\<rparr>"
  have "time_Parse ''01/01/2099'' = Inl (ParseError ''01/01/2099'' ''bad value for field'')"
    by code_simp
  then have p: "\<exists>err. time_Parse ''01/01/2099'' = Inl err"
    by blast
  have 1: "metric (fetchData example_world endpointB initial_state) (labels endpointB) = Some (- 1)"
    using fetchData_failure_sentinel [of example_world endpointB ?reqB initial_state]
    by (simp add: example_world_def http_NewRequest_def http_Do_def endpointA_def endpointB_def)
  have 2: "metric (fetchData ?w2 endpointA initial_state) (labels endpointA) = Some (- 1)"
    using fetchData_failure_sentinel [of ?w2 endpointA ?reqA initial_state]
    by (simp add: example_world_def http_NewRequest_def http_Do_def)
  have 3: "metric (fetchData ?w3 endpointA initial_state) (labels endpointA) = Some (- 1)"
    using fetchData_failure_sentinel [of ?w3 endpointA ?reqA initial_state]
    by (simp add: example_world_def http_NewRequest_def http_Do_def response_with_def)
  have 4: "metric (fetchData ?w4 endpointA initial_state) (labels endpointA) = Some (- 1)"
    using fetchData_failure_sentinel [of ?w4 endpointA ?reqA initial_state] p
    by (simp add: example_world_def http_NewRequest_def http_Do_def response_with_def)
  have r: "readConfig example_world ''config.json'' initial_state
             = ((\<lparr>URLs = [endpointA, endpointB]\<rparr>, None), initial_state\<lparr>tick := 1\<rparr>)"
    by (simp add: example_world_def readConfig_def ioutil_ReadFile_def initial_state_def)
  have 5: "cycle example_world initial_state
       = Running (time_Sleep (10 * Hour)
           (fold (fetchData example_world) [endpointA, endpointB] (initial_state\<lparr>tick := 1\<rparr>)))"
    using fetchData_failure_sentinel [of example_world endpointB ?reqB initial_state] r
    by (simp add: example_world_def http_NewRequest_def)
  from 1 2 3 4 5 show ?thesis by blast
qed

subsection \<open>The store after startup\<close>

text \<open>
  Claim C3. When the configuration named by the flag is read, \<open>init\<close> run on the empty
  store ends with a store whose keys are exactly the label pairs of the configured
  endpoints, every one of them holding \<open>-1\<close>, and with the server of \<open>/metrics\<close> not
  yet started: \<open>init\<close> is over before \<open>main\<close> begins.
\<close>

theorem init_sets_sentinel:
  assumes "readConfig w (flagConfig w) initial_state = ((config, None), st1)"
  shows "\<exists>st. init w initial_state = Running st
           \<and> dom (metric st) = labels ` set (URLs config)
           \<and> (\<forall>u \<in> set (URLs config). metric st (labels u) = Some (- 1))
           \<and> \<not> serving st"
proof -
  from readConfig_state [OF assms] have m: "metric st1 = Map.empty" "\<not> serving st1"
    by (simp_all add: initial_state_def)
  let ?st = "fold (\<lambda>u. metric_Set (URL u) (OriginPrometheus u) (- 1)) (URLs config) st1"
  have "init w initial_state = Running ?st"
    using assms by (simp add: init_def)
  moreover have "dom (metric ?st) = labels ` set (URLs config)"
    using m by (auto simp: dom_def metric_fold_Set)
  moreover have "\<forall>u \<in> set (URLs config). metric ?st (labels u) = Some (- 1)"
    by (simp add: metric_fold_Set)
  moreover have "\<not> serving ?st"
    using m by (simp add: serving_fold_Set)
  ultimately show ?thesis by blast
qed

theorem init_sets_sentinel_witness:
  "readConfig example_world (flagConfig example_world) initial_state
     = ((\<lparr>URLs = [endpointA, endpointB]\<rparr>, None), initial_state\<lparr>tick := 1\<rparr>)
   \<and> (\<exists>st. init example_world initial_state = Running st
         \<and> dom (metric st) = {labels endpointA, labels endpointB}
         \<and> metric st (labels endpointA) = Some (- 1)
         \<and> metric st (labels endpointB) = Some (- 1)
         \<and> \<not> serving st)"
proof -
  have h: "readConfig example_world (flagConfig example_world) initial_state
     = ((\<lparr>URLs = [endpointA, endpointB]\<rparr>, None), initial_state\<lparr>tick := 1\<rparr>)"
    by (simp add: example_world_def readConfig_def ioutil_ReadFile_def initial_state_def)
  from init_sets_sentinel [OF h] show ?thesis
    using h by auto
qed

subsection \<open>Initialising twice\<close>



subsection \<open>What one invocation writes\<close>

text \<open>
  Claim C6. An invocation of \<open>fetchData\<close> changes the store at the labels of its own
  endpoint and nowhere else, and the value it writes there is the outcome of polling that
  endpoint: the rounded days when the poll succeeds, \<open>-1\<close> otherwise, whatever the store
  held before. Hence, for endpoints with pairwise different labels, the invocations of a
  cycle add exactly their label pairs to the keys of the store, leave every other key as it
  was, and the entry of each endpoint after the cycle is the outcome of its own poll, made
  at the time of its own invocation; from the empty store there are as many entries as
  endpoints.
\<close>

theorem fetchData_frame:
  "metric (fetchData w u st) = (metric st)(labels u \<mapsto> endpoint_outcome w u (tick st))
   \<and> (distinct (map labels us) \<longrightarrow>
        dom (metric (fold (fetchData w) us st)) = dom (metric st) \<union> labels ` set us
      \<and> (\<forall>k. k \<notin> labels ` set us \<longrightarrow> metric (fold (fetchData w) us st) k = metric st k)
      \<and> (\<forall>i < length us.
            metric (fold (fetchData w) us st) (labels (us ! i))
              = Some (endpoint_outcome w (us ! i) (tick (fold (fetchData w) (take i us) st))))
      \<and> (metric st = Map.empty \<longrightarrow> card (dom (metric (fold (fetchData w) us st))) = length us))"
proof (intro conjI impI allI)
  show "metric (fetchData w u st) = (metric st)(labels u \<mapsto> endpoint_outcome w u (tick st))"
    by (rule fetchData_outcome)
next
  show "dom (metric (fold (fetchData w) us st)) = dom (metric st) \<union> labels ` set us"
    by (rule dom_fold_fetchData)
next
  fix k assume "k \<notin> labels ` set us"
  then show "metric (fold (fetchData w) us st) k = metric st k"
    by (rule fold_fetchData_other_key)
next
  fix i assume "distinct (map labels us)" "i < length us"
  then show "metric (fold (fetchData w) us st) (labels (us ! i))
              = Some (endpoint_outcome w (us ! i) (tick (fold (fetchData w) (take i us) st)))"
    by (rule fold_fetchData_outcome)
next
  assume d: "distinct (map labels us)" and e: "metric st = Map.empty"
  have "dom (metric (fold (fetchData w) us st)) = set (map labels us)"
    using e by (simp add: dom_fold_fetchData)
  then show "card (dom (metric (fold (fetchData w) us st))) = length us"
    using distinct_card [OF d] by simp
qed

theorem fetchData_frame_witness:
  "distinct (map labels [endpointA, endpointB])
   \<and> metric (metric_Set (URL endpointA) (OriginPrometheus endpointA) (- 1) initial_state)
        (labels endpointA) = Some (- 1)
   \<and> metric (fetchData example_world endpointA
        (metric_Set (URL endpointA) (OriginPrometheus endpointA) (- 1) initial_state))
        (labels endpointA) = Some (fl64 (2635948 / 100))
   \<and> fl64 (2635948 / 100) \<noteq> - 1
   \<and> dom (metric (fold (fetchData example_world) [endpointA, endpointB] initial_state))
       = {labels endpointA, labels endpointB}
   \<and> card (dom (metric (fold (fetchData example_world) [endpointA, endpointB] initial_state))) = 2
   \<and> metric (fold (fetchData example_world) [endpointA, endpointB] initial_state) (labels endpointA)
       = Some (fl64 (2635948 / 100))
   \<and> metric (fold (fetchData example_world) [endpointA, endpointB] initial_state) (labels endpointB)
       = Some (- 1)
   \<and> metric (fold (fetchData example_world) [endpointA, endpointB] initial_state)
         (''http://c.example/cert'', ''prom-1'') = None"
proof -
  let ?us = "[endpointA, endpointB]"
  let ?f = "fold (fetchData example_world) ?us initial_state"
  let ?s = "metric_Set (URL endpointA) (OriginPrometheus endpointA) (- 1) initial_state"
  have d: "distinct (map labels ?us)"
    by (simp add: endpointA_def endpointB_def)
  have e: "metric initial_state = Map.empty"
    by (simp add: initial_state_def)
  have ne: "fl64 (2635948 / 100) \<noteq> - 1"
    by code_simp
  have c: "(''http://c.example/cert'', ''prom-1'') \<notin> labels ` set ?us"
    by (simp add: endpointA_def endpointB_def)
  from fetchData_frame [of example_world endpointA ?s ?us]
  have 1: "metric (fetchData example_world endpointA ?s) (labels endpointA) = Some (fl64 (2635948 / 100))"
    by (simp add: outcome_A)
  from fetchData_frame [of example_world endpointA initial_state ?us] d e
  have 2: "dom (metric ?f) = dom (metric initial_state) \<union> labels ` set ?us"
    and 3: "card (dom (metric ?f)) = length ?us"
    and 4: "\<forall>i < length ?us. metric ?f (labels (?us ! i))
              = Some (endpoint_outcome example_world (?us ! i)
                  (tick (fold (fetchData example_world) (take i ?us) initial_state)))"
    and 5: "\<forall>k. k \<notin> labels ` set ?us \<longrightarrow> metric ?f k = metric initial_state k"
    by blast+
  from 4 [rule_format, of 0] have 6: "metric ?f (labels endpointA) = Some (fl64 (2635948 / 100))"
    by (simp add: outcome_A)
  from 4 [rule_format, of 1] have 7: "metric ?f (labels endpointB) = Some (- 1)"
    by (simp add: outcome_B)
  from 5 c e have 8: "metric ?f (''http://c.example/cert'', ''prom-1'') = None"
    by simp
  have 0: "metric ?s (labels endpointA) = Some (- 1)" by simp
  from 2 e have dm: "dom (metric ?f) = {labels endpointA, labels endpointB}" by auto
  from d 0 1 ne dm 3 6 7 8 show ?thesis by simp
qed

subsection \<open>Exits of the process\<close>

text \<open>
  Claim C7. When the configuration cannot be loaded at startup, the process logs the error
  and exits with status 1. When it cannot be loaded at the start of a later iteration of
  the polling loop, the loop logs the error and the process exits with status 1; the
  iteration is not skipped. This is the only way the polling loop ends: whenever it has
  exited, the status is 1 and a load of \<open>config.json\<close> had failed; no answer of an
  endpoint makes it exit.
\<close>

theorem config_failure_exits:
  "(\<forall>cfg err st1. readConfig w (flagConfig w) initial_state = ((cfg, Some err), st1)
      \<longrightarrow> program n w = Exited 1 (log_Printf ''Error reading config file: %v'' [AErr err] st1))
   \<and> (\<forall>st0 cfg err st1. scheduler k w st = Running st0
          \<and> readConfig w ''config.json'' st0 = ((cfg, Some err), st1)
      \<longrightarrow> scheduler (k + Suc n) w st
            = Exited 1 (log_Printf ''Error reading config file: %v'' [AErr err] st1))
   \<and> (\<forall>code st'. scheduler n w st = Exited code st'
      \<longrightarrow> code = 1 \<and> (\<exists>k st0 cfg err st1. k < n \<and> scheduler k w st = Running st0
                  \<and> readConfig w ''config.json'' st0 = ((cfg, Some err), st1)
                  \<and> st' = log_Printf ''Error reading config file: %v'' [AErr err] st1))"
proof (intro conjI allI impI)
  fix cfg err st1
  assume "readConfig w (flagConfig w) initial_state = ((cfg, Some err), st1)"
  then show "program n w = Exited 1 (log_Printf ''Error reading config file: %v'' [AErr err] st1)"
    by (simp add: program_def init_def log_Fatalf_def)
next
  fix st0 cfg err st1
  assume "scheduler k w st = Running st0
          \<and> readConfig w ''config.json'' st0 = ((cfg, Some err), st1)"
  then show "scheduler (k + Suc n) w st
            = Exited 1 (log_Printf ''Error reading config file: %v'' [AErr err] st1)"
    by (subst scheduler_add) (simp add: cycle_def log_Fatalf_def)
next
  fix code st'
  assume "scheduler n w st = Exited code st'"
  from scheduler_Exited [OF this] show "code = 1" by blast
next
  fix code st'
  assume "scheduler n w st = Exited code st'"
  from scheduler_Exited [OF this]
  show "\<exists>k st0 cfg err st1. k < n \<and> scheduler k w st = Running st0
          \<and> readConfig w ''config.json'' st0 = ((cfg, Some err), st1)
          \<and> st' = log_Printf ''Error reading config file: %v'' [AErr err] st1"
    by blast
qed

lemma tick_fetchData_A: "tick (fetchData vanishing_config_world endpointA st) = tick st + 2"
  by (simp add: fetchData_def vanishing_config_world_def example_world_def http_NewRequest_def
        http_Do_def response_with_def time_Now_def metric_Set_def log_Printf_def
        time_Parse_2099)

lemma tick_fetchData_B: "tick (fetchData vanishing_config_world endpointB st) = tick st + 1"
  by (simp add: fetchData_def vanishing_config_world_def example_world_def http_NewRequest_def
        http_Do_def endpointA_def endpointB_def metric_Set_def log_Printf_def)

theorem config_failure_exits_witness:
  "program 3 (example_world\<lparr>flagConfig := ''missing.json''\<rparr>)
     = Exited 1 \<lparr>metric = Map.empty,
         logs = [(''Error reading config file: %v'', [AErr (EnvError ''no such file or directory'')])],
         tick = 1, serving = False\<rparr>
   \<and> (\<exists>st0. scheduler 1 vanishing_config_world initial_state = Running st0
         \<and> scheduler 2 vanishing_config_world initial_state
             = Exited 1 (log_Printf ''Error reading config file: %v''
                 [AErr (EnvError ''no such file or directory'')] (st0\<lparr>tick := 6\<rparr>)))
   \<and> (\<exists>k st0 cfg err st1. k < 2 \<and> scheduler k vanishing_config_world initial_state = Running st0
         \<and> readConfig vanishing_config_world ''config.json'' st0 = ((cfg, Some err), st1))"
proof -
  let ?w1 = "example_world\<lparr>flagConfig := ''missing.json''\<rparr>"
  let ?w = vanishing_config_world
  let ?e = "EnvError ''no such file or directory''"
  have r1: "readConfig ?w1 (flagConfig ?w1) initial_state
              = ((\<lparr>URLs = []\<rparr>, Some ?e), initial_state\<lparr>tick := 1\<rparr>)"
    by (simp add: example_world_def readConfig_def ioutil_ReadFile_def initial_state_def)
  from config_failure_exits [of ?w1 3 0 initial_state] r1
  have 1: "program 3 ?w1
      = Exited 1 (log_Printf ''Error reading config file: %v'' [AErr ?e] (initial_state\<lparr>tick := 1\<rparr>))"
    by blast
  define st0 where
    "st0 = time_Sleep (10 * Hour) (fold (fetchData ?w) [endpointA, endpointB] (initial_state\<lparr>tick := 1\<rparr>))"
  have c: "scheduler 1 ?w initial_state = Running st0"
    by (simp add: st0_def cycle_def readConfig_def ioutil_ReadFile_def initial_state_def
          vanishing_config_world_def example_world_def)
  have t: "tick st0 = 5"
    by (simp add: st0_def time_Sleep_def tick_fetchData_A tick_fetchData_B)
  have r2: "readConfig ?w ''config.json'' st0 = ((\<lparr>URLs = []\<rparr>, Some ?e), st0\<lparr>tick := 6\<rparr>)"
    using t by (simp add: readConfig_def ioutil_ReadFile_def vanishing_config_world_def)
  from config_failure_exits [of ?w 0 1 initial_state] c r2
  have "scheduler (1 + Suc 0) ?w initial_state
      = Exited 1 (log_Printf ''Error reading config file: %v'' [AErr ?e] (st0\<lparr>tick := 6\<rparr>))"
    by blast
  then have 2: "scheduler 2 ?w initial_state
      = Exited 1 (log_Printf ''Error reading config file: %v'' [AErr ?e] (st0\<lparr>tick := 6\<rparr>))"
    by (simp add: numeral_2_eq_2)
  from config_failure_exits [of ?w 2 0 initial_state] 2
  have 3: "\<exists>k st0 cfg err st1. k < 2 \<and> scheduler k ?w initial_state = Running st0
         \<and> readConfig ?w ''config.json'' st0 = ((cfg, Some err), st1)"
    by blast
  from 1 have p1: "program 3 ?w1
     = Exited 1 \<lparr>metric = Map.empty,
         logs = [(''Error reading config file: %v'', [AErr ?e])],
         tick = 1, serving = False\<rparr>"
    by (simp add: log_Printf_def initial_state_def)
  from p1 c 2 3 show ?thesis
    by blast
qed

subsection \<open>Where the configuration is read from\<close>

text \<open>
  Claim C9. \<open>init\<close> reads the file named by the \<open>-config\<close> flag and no other: changing
  what any other file holds does not change what \<open>init\<close> does. An iteration of the
  polling loop reads \<open>config.json\<close> and no other file, and does not look at the flag:
  changing the flag and what any other file holds does not change what the iteration does.
  So with a flag that names another file, the endpoints initialised and the endpoints
  polled come from two different files.
\<close>

theorem config_path_only_at_startup:
  "((\<forall>t. rf t (flagConfig w) = readFile w t (flagConfig w))
      \<longrightarrow> init (w\<lparr>readFile := rf\<rparr>) st = init w st)
   \<and> ((\<forall>t. rf t ''config.json'' = readFile w t ''config.json'')
      \<longrightarrow> cycle (w\<lparr>flagConfig := p, readFile := rf\<rparr>) st = cycle w st)"
  by (simp add: init_def cycle_def readConfig_def ioutil_ReadFile_def
        fetchData_ignores_config_source split: sum.splits)

theorem config_path_only_at_startup_witness:
  "init (other_flag_world\<lparr>readFile := \<lambda>t path. if path = ''other.json'' then Inr ''A''
                                             else Inl (EnvError ''removed'')\<rparr>) initial_state
     = init other_flag_world initial_state
   \<and> cycle (other_flag_world\<lparr>flagConfig := ''config.json'',
                readFile := \<lambda>t path. if path = ''config.json'' then Inr ''B''
                                      else Inl (EnvError ''removed'')\<rparr>) initial_state
     = cycle other_flag_world initial_state
   \<and> (case init other_flag_world initial_state of
         Running st \<Rightarrow> dom (metric st) | Exited code st \<Rightarrow> {}) = {labels endpointA}
   \<and> (case cycle other_flag_world initial_state of
         Running st \<Rightarrow> dom (metric st) | Exited code st \<Rightarrow> {}) = {labels endpointB}"
proof -
  let ?rfA = "\<lambda>(t::nat) path. if path = ''other.json'' then Inr ''A'' else Inl (EnvError ''removed'')"
  let ?rfB = "\<lambda>(t::nat) path. if path = ''config.json'' then Inr ''B'' else Inl (EnvError ''removed'')"
  have f: "flagConfig other_flag_world = ''other.json''"
    by (simp add: other_flag_world_def)
  have a: "\<forall>t. ?rfA t (flagConfig other_flag_world) = readFile other_flag_world t (flagConfig other_flag_world)"
    by (simp add: other_flag_world_def)
  have b: "\<forall>t. ?rfB t ''config.json'' = readFile other_flag_world t ''config.json''"
    by (simp add: other_flag_world_def)
  from config_path_only_at_startup [of ?rfA other_flag_world initial_state] a
  have 1: "init (other_flag_world\<lparr>readFile := ?rfA\<rparr>) initial_state = init other_flag_world initial_state"
    by blast
  from config_path_only_at_startup [of ?rfB other_flag_world initial_state "''config.json''"] b
  have 2: "cycle (other_flag_world\<lparr>flagConfig := ''config.json'', readFile := ?rfB\<rparr>) initial_state
             = cycle other_flag_world initial_state"
    by blast
  have 3: "(case init other_flag_world initial_state of
         Running st \<Rightarrow> dom (metric st) | Exited code st \<Rightarrow> {}) = {labels endpointA}"
    by (simp add: init_def readConfig_def ioutil_ReadFile_def other_flag_world_def
          initial_state_def)
  have 4: "(case cycle other_flag_world initial_state of
         Running st \<Rightarrow> dom (metric st) | Exited code st \<Rightarrow> {}) = {labels endpointB}"
    by (simp add: cycle_def readConfig_def ioutil_ReadFile_def other_flag_world_def
          initial_state_def time_Sleep_def dom_fetchData Let_def)
  from 1 2 3 4 show ?thesis by blast
qed

subsection \<open>The fields of the reply that matter\<close>

text \<open>
  Claim C10. Two decoded replies with the same \<open>Data.DateLimit\<close> lead \<open>fetchData\<close> to
  the same state, whatever their \<open>Status\<close>, \<open>Message\<close>, \<open>Error\<close> and
  \<open>Data.AuthorizerDate\<close> are: the same value is published and the same lines are logged.
\<close>

theorem fetchData_only_DateLimit:
  assumes "DateLimit (Data r) = DateLimit (Data r')"
  shows "fetchData (w\<lparr>decodeResponse := \<lambda>body. Inr r\<rparr>) u st
       = fetchData (w\<lparr>decodeResponse := \<lambda>body. Inr r'\<rparr>) u st"
  using assms
  by (simp add: fetchData_def http_NewRequest_def http_Do_def time_Now_def
           split: sum.splits prod.splits option.splits)

theorem fetchData_only_DateLimit_witness:
  "DateLimit (Data (response_with ''2099-01-01 00:00:00''))
     = DateLimit (Data (error_response_with ''2099-01-01 00:00:00''))
   \<and> Status (response_with ''2099-01-01 00:00:00'') \<noteq> Status (error_response_with ''2099-01-01 00:00:00'')
   \<and> fetchData (example_world\<lparr>decodeResponse := \<lambda>body. Inr (response_with ''2099-01-01 00:00:00'')\<rparr>)
        endpointA initial_state
     = fetchData (example_world\<lparr>decodeResponse := \<lambda>body. Inr (error_response_with ''2099-01-01 00:00:00'')\<rparr>)
        endpointA initial_state"
proof -
  have h: "DateLimit (Data (response_with ''2099-01-01 00:00:00''))
     = DateLimit (Data (error_response_with ''2099-01-01 00:00:00''))"
    by (simp add: response_with_def error_response_with_def)
  from fetchData_only_DateLimit [OF h, of example_world endpointA initial_state] h
  show ?thesis
    by (simp add: response_with_def error_response_with_def)
qed

end
